theory Spec2Isabelle
  imports Complex_Main "HOL-Library.Word"
begin

unbundle bit_operations_syntax

section \<open>The twinkle-light pixel animator of NeoPixel-Christmas-Twinkle-Light\<close>

text \<open>
  The sketch is written for the board its header names, the Adafruit Pro Trinket 5V
  (an ATmega328P, compiled by avr-gcc): \<^verbatim>\<open>uint8_t\<close>, \<^verbatim>\<open>uint16_t\<close> and
  \<^verbatim>\<open>unsigned long\<close> are 8, 16 and 32 bits wide, \<^verbatim>\<open>int\<close> is 16 bits wide and
  \<^verbatim>\<open>float\<close> is the IEEE 754 binary32 format.
\<close>

type_synonym u8 = "8 word"
type_synonym u16 = "16 word"
type_synonym u32 = "32 word"

subsection \<open>The outside world: the millisecond clock and the random generator\<close>

text \<open>
  \<^verbatim>\<open>millis()\<close>, \<^verbatim>\<open>randomSeed()\<close> and \<^verbatim>\<open>random()\<close> belong to the Arduino core, not to
  the sketch. The world hands out their results: \<open>millis_at w k\<close> is what the \<open>k\<close>-th
  call of \<^verbatim>\<open>millis()\<close> returns, \<open>random_at w k\<close> what the \<open>k\<close>-th call of the C
  library's \<^verbatim>\<open>random()\<close> returns (a value from 0 to \<^verbatim>\<open>RANDOM_MAX\<close>). Both are left
  arbitrary, so a statement proved for every world holds for every clock and every
  generator. The calls made to the generator are logged in the order they happen.
\<close>

datatype rng_call = RandomSeed u32 | Random int

record world =
  millis_at :: "nat \<Rightarrow> u32"
  millis_calls :: nat
  random_at :: "nat \<Rightarrow> nat"
  random_calls :: nat
  rng_log :: "rng_call list"

definition millis :: "world \<Rightarrow> u32 \<times> world" where
  "millis w = (millis_at w (millis_calls w), w\<lparr>millis_calls := Suc (millis_calls w)\<rparr>)"

text \<open>
  \<^verbatim>\<open>randomSeed(seed)\<close> reseeds the generator; what the reseeded generator then
  returns is the world's business, the call itself is logged.
\<close>

definition randomSeed :: "u32 \<Rightarrow> world \<Rightarrow> world" where
  "randomSeed seed w = w\<lparr>rng_log := rng_log w @ [RandomSeed seed]\<rparr>"

text \<open>
  \<^verbatim>\<open>random(howbig)\<close> of the Arduino core: 0 when \<open>howbig\<close> is 0 (the generator is
  not asked), and otherwise the next value of the generator modulo \<open>howbig\<close>, a number from
  0 to \<open>howbig - 1\<close>.
\<close>

definition random :: "int \<Rightarrow> world \<Rightarrow> int \<times> world" where
  "random howbig w =
     (if howbig = 0 then (0, w\<lparr>rng_log := rng_log w @ [Random howbig]\<rparr>)
      else (int (random_at w (random_calls w)) mod howbig,
            w\<lparr>random_calls := Suc (random_calls w),
              rng_log := rng_log w @ [Random howbig]\<rparr>))"

subsection \<open>Single-precision arithmetic\<close>

text \<open>
  A \<^verbatim>\<open>float\<close> is modelled by the rational number it stands for, and every operation
  rounds its exact result to the nearest number with a 24-bit significand, ties to the even
  significand. The floats of this program are a 32-bit and a 16-bit number, their
  quotient, its product with 255 and the difference of that product from 255: none exceeds
  \<open>2 ^ 32\<close>, and none but 0 is smaller than \<open>1 / 2 ^ 16\<close>. This is far inside the
  exponent range of the format, so overflow and subnormal numbers never come into play.
\<close>

text \<open>The number of binary digits of a natural number.\<close>

fun bits :: "nat \<Rightarrow> nat" where
  "bits n = (if n = 0 then 0 else Suc (bits (n div 2)))"

declare bits.simps [simp del]

definition pow2 :: "int \<Rightarrow> rat" where
  "pow2 k = (if 0 \<le> k then 2 ^ nat k else 1 / 2 ^ nat (- k))"

text \<open>The binary exponent of a positive rational: \<open>pow2 (ilog2 x) \<le> x < pow2 (ilog2 x + 1)\<close>.\<close>

definition ilog2 :: "rat \<Rightarrow> int" where
  "ilog2 x =
     (if 1 \<le> x then int (bits (nat \<lfloor>x\<rfloor>)) - 1
      else (let k = int (bits (nat \<lfloor>1 / x\<rfloor>))
            in if x = pow2 (1 - k) then 1 - k else - k))"

text \<open>Rounding to the nearest integer, ties to even.\<close>

definition rne :: "rat \<Rightarrow> int" where
  "rne y =
     (let f = \<lfloor>y\<rfloor>; r = y - of_int f
      in if r < 1 / 2 then f
         else if 1 / 2 < r then f + 1
         else if even f then f else f + 1)"

definition binary32 :: "rat \<Rightarrow> rat" where
  "binary32 x =
     (if x = 0 then 0
      else (let u = pow2 (ilog2 \<bar>x\<bar> - 23) in of_int (rne (x / u)) * u))"

definition float_of_nat :: "nat \<Rightarrow> rat" where
  "float_of_nat n = binary32 (of_nat n)"

definition float_div :: "rat \<Rightarrow> rat \<Rightarrow> rat" where
  "float_div a b = binary32 (a / b)"

definition float_mul :: "rat \<Rightarrow> rat \<Rightarrow> rat" where
  "float_mul a b = binary32 (a * b)"

definition float_sub :: "rat \<Rightarrow> rat \<Rightarrow> rat" where
  "float_sub a b = binary32 (a - b)"

text \<open>
  Conversion of a float to \<^verbatim>\<open>uint8_t\<close> drops the fraction (towards zero). C defines
  it only when the result fits, that is for floats strictly between \<open>-1\<close> and 256;
  \<open>float_fits_u8\<close> says so, and the conversion of any other float is left to wrap.
\<close>

definition float_trunc :: "rat \<Rightarrow> int" where
  "float_trunc x = (if 0 \<le> x then \<lfloor>x\<rfloor> else \<lceil>x\<rceil>)"

definition float_fits_u8 :: "rat \<Rightarrow> bool" where
  "float_fits_u8 x \<longleftrightarrow> - 1 < x \<and> x < 256"

definition float_to_u8 :: "rat \<Rightarrow> u8" where
  "float_to_u8 x = word_of_int (float_trunc x)"

subsection \<open>The pixel\<close>

text \<open>
  \<^verbatim>\<open>enum hue { red = 0, ..., orange = 5 }\<close>: the field holds the enumerator's number, and
  like every C enum it can hold a number that names no enumerator.
\<close>

definition red :: int where "red = 0"
definition green :: int where "green = 1"
definition blue :: int where "blue = 2"
definition yellow :: int where "yellow = 3"
definition purple :: int where "purple = 4"
definition orange :: int where "orange = 5"

datatype direction = up | down

record ChristmasPixel =
  hue :: int
  direction :: direction
  brightness :: u8
  shouldBlink :: bool
  setTime :: u32
  timeZeroBrightnessWasEncountered :: u32
  timeFullBrightnessWasEncountered :: u32
  blinkSpeedFactor :: u8
  zeroBrightnessDelayInMilliseconds :: u16
  fullBrightnessDelayInMilliseconds :: u16
  pixel_Id :: u8

subsection \<open>The constants of the sketch\<close>

definition BLINK_PROBABILITY :: int where "BLINK_PROBABILITY = 0"
definition BLINK_SPEED_FACTOR_PROBABILITY :: int where "BLINK_SPEED_FACTOR_PROBABILITY = 4"
definition BLINK_SPEED_FACTOR_MULTIPLIER_IN_MILLISECONDS :: int where
  "BLINK_SPEED_FACTOR_MULTIPLIER_IN_MILLISECONDS = 100"
definition BLINK_SPEED_MINIMUM_IN_MILLISECONDS :: int where
  "BLINK_SPEED_MINIMUM_IN_MILLISECONDS = 70"
definition BLINK_ZERO_BRIGHTNESS_DELAY_PROBABILITY_IN_MILLISECONDS :: int where
  "BLINK_ZERO_BRIGHTNESS_DELAY_PROBABILITY_IN_MILLISECONDS = 5000"
definition BLINK_ZERO_BRIGHTNESS_DELAY_MINIMUM_IN_MILLISECONDS :: int where
  "BLINK_ZERO_BRIGHTNESS_DELAY_MINIMUM_IN_MILLISECONDS = 500"
definition BLINK_FULL_BRIGHTNESS_DELAY_PROBABILITY_IN_MILLISECONDS :: int where
  "BLINK_FULL_BRIGHTNESS_DELAY_PROBABILITY_IN_MILLISECONDS = 15000"
definition BLINK_FULL_BRIGHTNESS_DELAY_MINIMUM_IN_MILLISECONDS :: int where
  "BLINK_FULL_BRIGHTNESS_DELAY_MINIMUM_IN_MILLISECONDS = 500"

text \<open>The largest \<^verbatim>\<open>int\<close> of avr-gcc.\<close>

definition INT_MAX :: int where "INT_MAX = 32767"

subsection \<open>Construction and the five randomizers\<close>

text \<open>
  The pixels are a global array: every field is zero before the constructor runs, and the
  constructor sets the three fields it names.
\<close>

definition ChristmasPixel_new :: "world \<Rightarrow> ChristmasPixel \<times> world" where
  "ChristmasPixel_new w =
     (let (now, w1) = millis w
      in (\<lparr>hue = 0, direction = down, brightness = 255, shouldBlink = False,
           setTime = now, timeZeroBrightnessWasEncountered = 0,
           timeFullBrightnessWasEncountered = 0, blinkSpeedFactor = 0,
           zeroBrightnessDelayInMilliseconds = 0, fullBrightnessDelayInMilliseconds = 0,
           pixel_Id = 0\<rparr>, w1))"

definition RandomizeColor :: "ChristmasPixel \<Rightarrow> world \<Rightarrow> ChristmasPixel \<times> world" where
  "RandomizeColor p w =
     (let (systemUptime, w1) = millis w;
          w2 = randomSeed systemUptime w1;
          (r, w3) = random 6 w2
      in (p\<lparr>hue := r\<rparr>, w3))"

definition RandomizeSpeedFactor :: "ChristmasPixel \<Rightarrow> world \<Rightarrow> ChristmasPixel \<times> world" where
  "RandomizeSpeedFactor p w =
     (let (systemUptime, w1) = millis w;
          w2 = randomSeed systemUptime w1;
          (r, w3) = random BLINK_SPEED_FACTOR_PROBABILITY w2
      in (p\<lparr>blinkSpeedFactor := word_of_int r\<rparr>, w3))"

definition RandomizeBlinkability :: "ChristmasPixel \<Rightarrow> world \<Rightarrow> ChristmasPixel \<times> world" where
  "RandomizeBlinkability p w =
     (let (systemUptime, w1) = millis w;
          w2 = randomSeed systemUptime w1;
          (r, w3) = random BLINK_PROBABILITY w2
      in (p\<lparr>shouldBlink := (r = 0)\<rparr>, w3))"

definition RandomizeZeroBrightnessDelay ::
  "ChristmasPixel \<Rightarrow> world \<Rightarrow> ChristmasPixel \<times> world" where
  "RandomizeZeroBrightnessDelay p w =
     (let (systemUptime, w1) = millis w;
          w2 = randomSeed systemUptime w1;
          (r, w3) = random BLINK_ZERO_BRIGHTNESS_DELAY_PROBABILITY_IN_MILLISECONDS w2
      in (p\<lparr>zeroBrightnessDelayInMilliseconds :=
             word_of_int (r + BLINK_ZERO_BRIGHTNESS_DELAY_MINIMUM_IN_MILLISECONDS)\<rparr>, w3))"

definition RandomizeFullBrightnessDelay ::
  "ChristmasPixel \<Rightarrow> world \<Rightarrow> ChristmasPixel \<times> world" where
  "RandomizeFullBrightnessDelay p w =
     (let (systemUptime, w1) = millis w;
          w2 = randomSeed systemUptime w1;
          (r, w3) = random BLINK_FULL_BRIGHTNESS_DELAY_PROBABILITY_IN_MILLISECONDS w2
      in (p\<lparr>fullBrightnessDelayInMilliseconds :=
             word_of_int (r + BLINK_FULL_BRIGHTNESS_DELAY_MINIMUM_IN_MILLISECONDS)\<rparr>, w3))"

subsection \<open>The animation step\<close>

text \<open>
  \<^verbatim>\<open>_CalculateBlinkSpeed\<close>: the factor is promoted to \<^verbatim>\<open>int\<close>; the sum is at most
  25570, within \<open>INT_MAX\<close>, and is stored in 16 bits.
\<close>

definition CalculateBlinkSpeed :: "ChristmasPixel \<Rightarrow> u16" where
  "CalculateBlinkSpeed p =
     word_of_int (uint (blinkSpeedFactor p) * BLINK_SPEED_FACTOR_MULTIPLIER_IN_MILLISECONDS
                  + BLINK_SPEED_MINIMUM_IN_MILLISECONDS)"

text \<open>The three elapsed times, each an \<^verbatim>\<open>unsigned long\<close> subtraction.\<close>

definition millisecondsSinceZeroBrightness :: "ChristmasPixel \<Rightarrow> u32 \<Rightarrow> u32" where
  "millisecondsSinceZeroBrightness p now = now - timeZeroBrightnessWasEncountered p"

definition millisecondsSinceFullBrightness :: "ChristmasPixel \<Rightarrow> u32 \<Rightarrow> u32" where
  "millisecondsSinceFullBrightness p now = now - timeFullBrightnessWasEncountered p"

definition millisecondsSinceSet :: "ChristmasPixel \<Rightarrow> u32 \<Rightarrow> u32" where
  "millisecondsSinceSet p now = now - setTime p"

text \<open>
  \<^verbatim>\<open>elapsedTimePercent\<close>: the quotient of the two values converted to float, cut off
  at 1.
\<close>

definition elapsedTimePercent :: "u32 \<Rightarrow> u16 \<Rightarrow> rat" where
  "elapsedTimePercent ms blinkSpeed =
     (let pct = float_div (float_of_nat (unat ms)) (float_of_nat (unat blinkSpeed))
      in if 1 < pct then 1 else pct)"

text \<open>The float assigned to the brightness while dimming, and while brightening.\<close>

definition dimmed :: "u32 \<Rightarrow> u16 \<Rightarrow> rat" where
  "dimmed ms blinkSpeed = float_sub 255 (float_mul (elapsedTimePercent ms blinkSpeed) 255)"

definition brightened :: "u32 \<Rightarrow> u16 \<Rightarrow> rat" where
  "brightened ms blinkSpeed = float_mul (elapsedTimePercent ms blinkSpeed) 255"

definition CalculateBlinkAnimationParameters ::
  "ChristmasPixel \<Rightarrow> world \<Rightarrow> ChristmasPixel \<times> world" where
  "CalculateBlinkAnimationParameters p w =
     (if shouldBlink p = True then
        if direction p = down then
          if brightness p = 0 then
            (let (now, w1) = millis w
             in if ucast (zeroBrightnessDelayInMilliseconds p)
                     < millisecondsSinceZeroBrightness p now then
                  (let p1 = p\<lparr>direction := up\<rparr>;
                       (p2, w2) = RandomizeColor p1 w1;
                       (p3, w3) = RandomizeSpeedFactor p2 w2;
                       (p4, w4) = RandomizeZeroBrightnessDelay p3 w3;
                       (p5, w5) = RandomizeFullBrightnessDelay p4 w4;
                       (t, w6) = millis w5
                   in (p5\<lparr>setTime := t\<rparr>, w6))
                else (p, w1))
          else
            (let blinkSpeed = CalculateBlinkSpeed p;
                 (now, w1) = millis w;
                 p1 = p\<lparr>brightness :=
                          float_to_u8 (dimmed (millisecondsSinceSet p now) blinkSpeed)\<rparr>;
                 p2 = (if uint (brightness p1) < 0 then p1\<lparr>brightness := 0\<rparr> else p1)
             in if brightness p2 = 0 then
                  (let (t, w2) = millis w1
                   in (p2\<lparr>timeZeroBrightnessWasEncountered := t\<rparr>, w2))
                else (p2, w1))
        else
          if brightness p = 255 then
            (let (now, w1) = millis w
             in if ucast (fullBrightnessDelayInMilliseconds p)
                     < millisecondsSinceFullBrightness p now then
                  (let p1 = p\<lparr>direction := down\<rparr>;
                       p2 = p1\<lparr>brightness := 255\<rparr>;
                       (t, w2) = millis w1
                   in (p2\<lparr>setTime := t\<rparr>, w2))
                else (p, w1))
          else
            (let blinkSpeed = CalculateBlinkSpeed p;
                 (now, w1) = millis w;
                 p1 = p\<lparr>brightness :=
                          float_to_u8 (brightened (millisecondsSinceSet p now) blinkSpeed)\<rparr>;
                 p2 = (if 255 < uint (brightness p1) then p1\<lparr>brightness := 255\<rparr> else p1)
             in if brightness p2 = 255 then
                  (let (t, w2) = millis w1
                   in (p2\<lparr>timeFullBrightnessWasEncountered := t\<rparr>, w2))
                else (p2, w1))
      else (p, w))"

subsection \<open>The colour\<close>

text \<open>
  What can go wrong in \<^verbatim>\<open>GetColor\<close>: a product that does not fit \<^verbatim>\<open>int\<close>, and a hue
  that matches no \<^verbatim>\<open>case\<close>, where the function ends without a \<^verbatim>\<open>return\<close>. C gives
  neither a meaning.
\<close>

datatype fault = SignedOverflow | NoReturnValue

text \<open>
  \<^verbatim>\<open>this->_brightness*weight/255\<close> as an argument of \<^verbatim>\<open>strip.Color\<close>: the brightness is
  promoted to \<^verbatim>\<open>int\<close>, multiplied, divided, and the quotient converted to the
  \<^verbatim>\<open>uint8_t\<close> parameter. The product is computed in \<^verbatim>\<open>int\<close>; when it exceeds
  \<open>INT_MAX\<close> the multiplication overflows.
\<close>

definition channel :: "u8 \<Rightarrow> int \<Rightarrow> fault + u8" where
  "channel b weight =
     (let product = uint b * weight
      in if INT_MAX < product then Inl SignedOverflow
         else Inr (word_of_int (product div 255)))"

text \<open>\<^verbatim>\<open>Adafruit_NeoPixel::Color(r, g, b)\<close> packs the three bytes into one 32-bit value.\<close>

definition Color :: "u8 \<Rightarrow> u8 \<Rightarrow> u8 \<Rightarrow> u32" where
  "Color r g b = push_bit 16 (ucast r) OR push_bit 8 (ucast g) OR ucast b"

definition strip_Color :: "fault + u8 \<Rightarrow> fault + u8 \<Rightarrow> fault + u8 \<Rightarrow> fault + u32" where
  "strip_Color r g b =
     (case r of Inl f \<Rightarrow> Inl f | Inr r' \<Rightarrow>
      (case g of Inl f \<Rightarrow> Inl f | Inr g' \<Rightarrow>
       (case b of Inl f \<Rightarrow> Inl f | Inr b' \<Rightarrow> Inr (Color r' g' b'))))"

definition GetColor :: "ChristmasPixel \<Rightarrow> world \<Rightarrow> (fault + u32) \<times> ChristmasPixel \<times> world" where
  "GetColor p w =
     (let (p', w') = CalculateBlinkAnimationParameters p w;
          b = brightness p';
          h = hue p'
      in ((if h = red then strip_Color (channel b 255) (Inr 0) (Inr 0)
           else if h = green then strip_Color (Inr 0) (channel b 255) (Inr 0)
           else if h = blue then strip_Color (Inr 0) (Inr 0) (channel b 255)
           else if h = yellow then strip_Color (channel b 255) (channel b 100) (Inr 0)
           else if h = purple then strip_Color (channel b 200) (Inr 0) (channel b 200)
           else if h = orange then strip_Color (channel b 255) (channel b 30) (Inr 0)
           else Inl NoReturnValue), p', w'))"

text \<open>\<open>n\<close> calls of \<^verbatim>\<open>GetColor\<close> on one pixel, one per frame of \<^verbatim>\<open>loop()\<close>.\<close>

fun GetColor_calls :: "nat \<Rightarrow> ChristmasPixel \<Rightarrow> world \<Rightarrow> ChristmasPixel \<times> world" where
  "GetColor_calls 0 p w = (p, w)"
| "GetColor_calls (Suc n) p w =
     (let (c, p', w') = GetColor p w in GetColor_calls n p' w')"

subsection \<open>The colour table of the specification\<close>

text \<open>
  The specification describes the colour as a table: every hue has three channel weights,
  and a channel is its weight times the brightness, divided by 255 in integer arithmetic.
  \<open>getColorFor\<close> follows these words, on mathematical integers; it is what \<open>GetColor\<close>
  is compared with.
\<close>

definition weights :: "int \<Rightarrow> (int \<times> int \<times> int) option" where
  "weights h =
     (if h = red then Some (255, 0, 0)
      else if h = green then Some (0, 255, 0)
      else if h = blue then Some (0, 0, 255)
      else if h = yellow then Some (255, 100, 0)
      else if h = purple then Some (200, 0, 200)
      else if h = orange then Some (255, 30, 0)
      else None)"

definition getColorFor :: "int \<Rightarrow> u8 \<Rightarrow> u32 option" where
  "getColorFor h b =
     (case weights h of
        None \<Rightarrow> None
      | Some (wr, wg, wb) \<Rightarrow>
          Some (Color (word_of_int (wr * uint b div 255)) (word_of_int (wg * uint b div 255))
                  (word_of_int (wb * uint b div 255))))"

text \<open>
  The specification's brightness of a ramp as a function of the elapsed time:
  \<open>255 \<times> (1 - min(elapsed/rampDurationMs, 1))\<close> while dimming and
  \<open>255 \<times> min(elapsed/rampDurationMs, 1)\<close> while brightening, as rational numbers.
\<close>

definition linear_dimming :: "nat \<Rightarrow> nat \<Rightarrow> rat" where
  "linear_dimming elapsed rampDurationMs =
     255 * (1 - min (of_nat elapsed / of_nat rampDurationMs) 1)"

definition linear_brightening :: "nat \<Rightarrow> nat \<Rightarrow> rat" where
  "linear_brightening elapsed rampDurationMs =
     255 * min (of_nat elapsed / of_nat rampDurationMs) 1"

subsection \<open>Notions used in the statements\<close>

text \<open>The hue is one of the six enumerators.\<close>

definition valid_hue :: "int \<Rightarrow> bool" where
  "valid_hue h \<longleftrightarrow>
     h = red \<or> h = green \<or> h = blue \<or> h = yellow \<or> h = purple \<or> h = orange"

text \<open>
  The arguments of the \<^verbatim>\<open>random()\<close> calls in a log, and of those made between two
  worlds: one entry for every value drawn.
\<close>

fun random_bounds :: "rng_call list \<Rightarrow> int list" where
  "random_bounds [] = []"
| "random_bounds (RandomSeed seed # cs) = random_bounds cs"
| "random_bounds (Random howbig # cs) = howbig # random_bounds cs"

definition draws_between :: "world \<Rightarrow> world \<Rightarrow> int list" where
  "draws_between w w' = random_bounds (drop (length (rng_log w)) (rng_log w'))"

subsection \<open>Example pixels and an example world\<close>

text \<open>
  A world whose clock starts at \<open>t0\<close> and advances by one millisecond at every reading,
  and whose generator returns 3, 10, 17, ...
\<close>

definition ticking_world :: "u32 \<Rightarrow> world" where
  "ticking_world t0 =
     \<lparr>millis_at = (\<lambda>k. t0 + of_nat k), millis_calls = 0,
      random_at = (\<lambda>k. 7 * k + 3), random_calls = 0, rng_log = []\<rparr>"

text \<open>A pixel that does not blink.\<close>

definition static_pixel :: ChristmasPixel where
  "static_pixel =
     \<lparr>hue = purple, direction = down, brightness = 255, shouldBlink = False,
      setTime = 0, timeZeroBrightnessWasEncountered = 0,
      timeFullBrightnessWasEncountered = 0, blinkSpeedFactor = 0,
      zeroBrightnessDelayInMilliseconds = 0, fullBrightnessDelayInMilliseconds = 0,
      pixel_Id = 0\<rparr>"

text \<open>
  A purple blinker that reached full brightness at clock value 4294967000, shortly before
  the clock wraps around, and holds it for 500 ms.
\<close>

definition holding_pixel :: ChristmasPixel where
  "holding_pixel =
     \<lparr>hue = purple, direction = up, brightness = 255, shouldBlink = True,
      setTime = 4294966000, timeZeroBrightnessWasEncountered = 4294965000,
      timeFullBrightnessWasEncountered = 4294967000, blinkSpeedFactor = 3,
      zeroBrightnessDelayInMilliseconds = 700, fullBrightnessDelayInMilliseconds = 500,
      pixel_Id = 0\<rparr>"

text \<open>A yellow blinker that reached zero brightness at 4294967000 and stays dark for 700 ms.\<close>

definition dark_pixel :: ChristmasPixel where
  "dark_pixel =
     \<lparr>hue = yellow, direction = down, brightness = 0, shouldBlink = True,
      setTime = 4294966000, timeZeroBrightnessWasEncountered = 4294967000,
      timeFullBrightnessWasEncountered = 4294965000, blinkSpeedFactor = 3,
      zeroBrightnessDelayInMilliseconds = 700, fullBrightnessDelayInMilliseconds = 500,
      pixel_Id = 0\<rparr>"

text \<open>
  A world whose clock shows \<open>t\<close> at its first three readings and \<open>t + 1\<close> from then on.
\<close>

definition pausing_world :: "u32 \<Rightarrow> world" where
  "pausing_world t =
     \<lparr>millis_at = (\<lambda>k. if k < 3 then t else t + 1), millis_calls = 0,
      random_at = (\<lambda>k. 7 * k + 3), random_calls = 0, rng_log = []\<rparr>"

text \<open>
  A red blinker at full brightness that started to dim at clock value 4294967200, with
  speed factor 3 (a ramp of 370 ms) and no delays.
\<close>

definition bright_pixel :: ChristmasPixel where
  "bright_pixel =
     \<lparr>hue = red, direction = down, brightness = 255, shouldBlink = True,
      setTime = 4294967200, timeZeroBrightnessWasEncountered = 4294965000,
      timeFullBrightnessWasEncountered = 4294967000, blinkSpeedFactor = 3,
      zeroBrightnessDelayInMilliseconds = 0, fullBrightnessDelayInMilliseconds = 0,
      pixel_Id = 0\<rparr>"

section \<open>Basic facts\<close>

lemmas hue_defs = red_def green_def blue_def yellow_def purple_def orange_def

lemmas BLINK_defs =
  BLINK_PROBABILITY_def BLINK_SPEED_FACTOR_PROBABILITY_def
  BLINK_SPEED_FACTOR_MULTIPLIER_IN_MILLISECONDS_def BLINK_SPEED_MINIMUM_IN_MILLISECONDS_def
  BLINK_ZERO_BRIGHTNESS_DELAY_PROBABILITY_IN_MILLISECONDS_def
  BLINK_ZERO_BRIGHTNESS_DELAY_MINIMUM_IN_MILLISECONDS_def
  BLINK_FULL_BRIGHTNESS_DELAY_PROBABILITY_IN_MILLISECONDS_def
  BLINK_FULL_BRIGHTNESS_DELAY_MINIMUM_IN_MILLISECONDS_def

text \<open>\<^verbatim>\<open>GetColor\<close> changes the pixel and the world as the animation step does.\<close>

lemma GetColor_state: "snd (GetColor p w) = CalculateBlinkAnimationParameters p w"
  by (simp add: GetColor_def Let_def case_prod_unfold)

lemma GetColor_static: "\<not> shouldBlink p \<Longrightarrow> snd (GetColor p w) = (p, w)"
  by (simp add: GetColor_state CalculateBlinkAnimationParameters_def)

text \<open>The five randomizers, with the constants of the sketch filled in.\<close>

lemma Randomize_simps:
  "RandomizeColor p w =
     (p\<lparr>hue := int (random_at w (random_calls w)) mod 6\<rparr>,
      w\<lparr>millis_calls := Suc (millis_calls w), random_calls := Suc (random_calls w),
        rng_log := rng_log w @ [RandomSeed (millis_at w (millis_calls w)), Random 6]\<rparr>)"
  "RandomizeSpeedFactor p w =
     (p\<lparr>blinkSpeedFactor := word_of_int (int (random_at w (random_calls w)) mod 4)\<rparr>,
      w\<lparr>millis_calls := Suc (millis_calls w), random_calls := Suc (random_calls w),
        rng_log := rng_log w @ [RandomSeed (millis_at w (millis_calls w)), Random 4]\<rparr>)"
  "RandomizeZeroBrightnessDelay p w =
     (p\<lparr>zeroBrightnessDelayInMilliseconds :=
          word_of_int (int (random_at w (random_calls w)) mod 5000 + 500)\<rparr>,
      w\<lparr>millis_calls := Suc (millis_calls w), random_calls := Suc (random_calls w),
        rng_log := rng_log w @ [RandomSeed (millis_at w (millis_calls w)), Random 5000]\<rparr>)"
  "RandomizeFullBrightnessDelay p w =
     (p\<lparr>fullBrightnessDelayInMilliseconds :=
          word_of_int (int (random_at w (random_calls w)) mod 15000 + 500)\<rparr>,
      w\<lparr>millis_calls := Suc (millis_calls w), random_calls := Suc (random_calls w),
        rng_log := rng_log w @ [RandomSeed (millis_at w (millis_calls w)), Random 15000]\<rparr>)"
  "RandomizeBlinkability p w =
     (p\<lparr>shouldBlink := True\<rparr>,
      w\<lparr>millis_calls := Suc (millis_calls w),
        rng_log := rng_log w @ [RandomSeed (millis_at w (millis_calls w)), Random 0]\<rparr>)"
  by (simp_all add: RandomizeColor_def RandomizeSpeedFactor_def RandomizeZeroBrightnessDelay_def
      RandomizeFullBrightnessDelay_def RandomizeBlinkability_def millis_def randomSeed_def
      random_def BLINK_defs Let_def)

text \<open>The step of a dark, dimming blinker, branch by branch.\<close>

lemma zero_hold_step:
  assumes "shouldBlink p" and "direction p = down" and "brightness p = 0"
  shows "CalculateBlinkAnimationParameters p w =
     (if ucast (zeroBrightnessDelayInMilliseconds p)
           < millisecondsSinceZeroBrightness p (millis_at w (millis_calls w))
      then (p\<lparr>direction := up,
              hue := int (random_at w (random_calls w)) mod 6,
              blinkSpeedFactor := word_of_int (int (random_at w (random_calls w + 1)) mod 4),
              zeroBrightnessDelayInMilliseconds :=
                word_of_int (int (random_at w (random_calls w + 2)) mod 5000 + 500),
              fullBrightnessDelayInMilliseconds :=
                word_of_int (int (random_at w (random_calls w + 3)) mod 15000 + 500),
              setTime := millis_at w (millis_calls w + 5)\<rparr>,
            w\<lparr>millis_calls := millis_calls w + 6, random_calls := random_calls w + 4,
              rng_log := rng_log w @
                [RandomSeed (millis_at w (millis_calls w + 1)), Random 6,
                 RandomSeed (millis_at w (millis_calls w + 2)), Random 4,
                 RandomSeed (millis_at w (millis_calls w + 3)), Random 5000,
                 RandomSeed (millis_at w (millis_calls w + 4)), Random 15000]\<rparr>)
      else (p, w\<lparr>millis_calls := millis_calls w + 1\<rparr>))"
  using assms
  by (simp add: CalculateBlinkAnimationParameters_def Randomize_simps millis_def Let_def
      eval_nat_numeral)

section \<open>Rounding to single precision\<close>

lemma pow2_powi: "pow2 k = 2 powi k"
  by (simp add: pow2_def power_int_def inverse_eq_divide power_one_over)

lemma pow2_pos: "0 < pow2 k"
  by (simp add: pow2_powi)

lemma pow2_add: "pow2 (a + b) = pow2 a * pow2 b"
  by (simp add: pow2_powi power_int_add)

lemma pow2_minus: "pow2 (- k) = 1 / pow2 k"
  by (simp add: pow2_powi power_int_minus inverse_eq_divide)

lemma pow2_nat: "pow2 (int n) = 2 ^ n"
  by (simp add: pow2_def)

lemma pow2_mono: "a \<le> b \<Longrightarrow> pow2 a \<le> pow2 b"
  by (simp add: pow2_powi power_int_increasing)

lemma pow2_strict_mono: "a < b \<Longrightarrow> pow2 a < pow2 b"
  by (simp add: pow2_powi power_int_strict_increasing)

lemma pow2_less_cancel: "pow2 a < pow2 b \<Longrightarrow> a < b"
  using pow2_mono [of b a] by (cases "a < b") auto

lemma bits_upper: "n < 2 ^ bits n"
proof (induction n rule: bits.induct)
  case (1 n)
  show ?case
  proof (cases "n = 0")
    case True
    then show ?thesis by (simp add: bits.simps)
  next
    case False
    with 1 have "n div 2 < 2 ^ bits (n div 2)" by simp
    then have "n < 2 * 2 ^ bits (n div 2)" by linarith
    with False show ?thesis by (simp add: bits.simps [of n])
  qed
qed

lemma bits_lower: "0 < n \<Longrightarrow> 2 ^ (bits n - 1) \<le> n"
proof (induction n rule: bits.induct)
  case (1 n)
  then have n: "n \<noteq> 0" by simp
  show ?case
  proof (cases "n div 2 = 0")
    case True
    with n show ?thesis by (simp add: bits.simps [of n] bits.simps [of 0])
  next
    case False
    with 1 n have "2 ^ (bits (n div 2) - 1) \<le> n div 2" by simp
    moreover from False have "0 < bits (n div 2)" by (simp add: bits.simps [of "n div 2"])
    ultimately have "2 ^ bits (n div 2) \<le> 2 * (n div 2)"
      by (cases "bits (n div 2)") auto
    then have "2 ^ bits (n div 2) \<le> n" by linarith
    with n show ?thesis by (simp add: bits.simps [of n])
  qed
qed

lemma of_nat_floor_pos: "0 < nat \<lfloor>y\<rfloor> \<Longrightarrow> rat_of_nat (nat \<lfloor>y\<rfloor>) = of_int \<lfloor>y\<rfloor>"
  by (cases "0 \<le> \<lfloor>y\<rfloor>") simp_all

lemma bits_pos: "0 < n \<Longrightarrow> 0 < bits n"
  by (simp add: bits.simps [of n])

lemma ilog2_lower: assumes "0 < x" shows "pow2 (ilog2 x) \<le> x"
proof (cases "1 \<le> x")
  case True
  define n where "n = nat \<lfloor>x\<rfloor>"
  from True have n: "0 < n" "rat_of_nat n \<le> x" by (simp_all add: n_def le_floor_iff)
  have "(2::rat) ^ (bits n - 1) = of_nat (2 ^ (bits n - 1))" by simp
  also have "\<dots> \<le> of_nat n" using bits_lower [OF n(1)] by (simp only: of_nat_le_iff)
  also have "\<dots> \<le> x" by (rule n(2))
  finally have "(2::rat) ^ (bits n - 1) \<le> x" .
  moreover have "ilog2 x = int (bits n - 1)"
    using True bits_pos [OF n(1)] by (simp add: ilog2_def n_def)
  ultimately show ?thesis by (simp add: pow2_nat)
next
  case False
  define n where "n = nat \<lfloor>1 / x\<rfloor>"
  define k where "k = int (bits n)"
  from False assms have "1 < 1 / x" by simp
  then have n: "0 < n" by (simp add: n_def less_floor_iff)
  have "1 / x < of_int (\<lfloor>1 / x\<rfloor> + 1)" by linarith
  also have "\<dots> = of_nat (n + 1)" using n by (simp add: n_def of_nat_floor_pos)
  also have "\<dots> \<le> of_nat (2 ^ bits n)" by (rule of_nat_mono) (use bits_upper [of n] in simp)
  finally have "1 / x < 2 ^ bits n" by simp
  then have "1 / 2 ^ bits n < x" using assms by (simp add: field_simps)
  then have "pow2 (- k) < x" by (simp add: k_def pow2_minus pow2_nat)
  moreover have "ilog2 x = (if x = pow2 (1 - k) then 1 - k else - k)"
    using False by (simp add: ilog2_def n_def k_def Let_def)
  ultimately show ?thesis by auto
qed

lemma ilog2_upper: assumes "0 < x" shows "x < pow2 (ilog2 x + 1)"
proof (cases "1 \<le> x")
  case True
  define n where "n = nat \<lfloor>x\<rfloor>"
  from True have n: "0 < n" by (simp_all add: n_def le_floor_iff)
  have "x < of_int (\<lfloor>x\<rfloor> + 1)" by linarith
  also have "\<dots> = of_nat (n + 1)" using n by (simp add: n_def of_nat_floor_pos)
  also have "\<dots> \<le> of_nat (2 ^ bits n)" by (rule of_nat_mono) (use bits_upper [of n] in simp)
  finally have "x < 2 ^ bits n" by simp
  moreover have "ilog2 x + 1 = int (bits n)"
    using True bits_pos [OF n] by (simp add: ilog2_def n_def)
  ultimately show ?thesis by (simp add: pow2_nat)
next
  case False
  define n where "n = nat \<lfloor>1 / x\<rfloor>"
  define k where "k = int (bits n)"
  from False assms have "1 < 1 / x" by simp
  then have n0: "0 < n" by (simp add: n_def less_floor_iff)
  then have "rat_of_nat n \<le> 1 / x"
    by (metis n_def of_nat_floor_pos of_int_floor_le)
  note n = n0 this
  have "(2::rat) ^ (bits n - 1) = of_nat (2 ^ (bits n - 1))" by simp
  also have "\<dots> \<le> of_nat n" using bits_lower [OF n(1)] by (simp only: of_nat_le_iff)
  also have "\<dots> \<le> 1 / x" by (rule n(2))
  finally have "(2::rat) ^ (bits n - 1) \<le> 1 / x" .
  then have "x \<le> 1 / 2 ^ (bits n - 1)" using assms by (simp add: field_simps)
  moreover have "int (bits n - 1) = k - 1" using bits_pos [OF n(1)] by (simp add: k_def)
  then have "pow2 (1 - k) = 1 / 2 ^ (bits n - 1)"
    using pow2_minus [of "k - 1"] pow2_nat [of "bits n - 1"] by simp
  ultimately have le: "x \<le> pow2 (1 - k)" by simp
  have eq: "ilog2 x = (if x = pow2 (1 - k) then 1 - k else - k)"
    using False by (simp add: ilog2_def n_def k_def Let_def)
  show ?thesis
  proof (cases "x = pow2 (1 - k)")
    case True
    with eq have "ilog2 x + 1 = (1 - k) + 1" by simp
    moreover have "pow2 (1 - k) < pow2 ((1 - k) + 1)" by (rule pow2_strict_mono) simp
    ultimately show ?thesis using True by simp
  next
    case False
    with eq le show ?thesis by simp
  qed
qed

lemma rne_cases: "rne y = \<lfloor>y\<rfloor> \<or> rne y = \<lfloor>y\<rfloor> + 1"
  by (simp add: rne_def Let_def)

lemma rne_of_int: "rne (of_int k) = k"
  by (simp add: rne_def Let_def)

lemma rne_le: "y \<le> of_int k \<Longrightarrow> rne y \<le> k"
proof (cases "y = of_int k")
  case True
  then show ?thesis by (simp add: rne_of_int)
next
  case False
  assume "y \<le> of_int k"
  with False have "y < of_int k" by simp
  then have "\<lfloor>y\<rfloor> < k" by (simp add: floor_less_iff)
  with rne_cases [of y] show ?thesis by auto
qed

lemma rne_ge: "of_int k \<le> y \<Longrightarrow> k \<le> rne y"
proof -
  assume "of_int k \<le> y"
  then have "k \<le> \<lfloor>y\<rfloor>" by (simp add: le_floor_iff)
  with rne_cases [of y] show ?thesis by auto
qed

lemma rne_error: "\<bar>of_int (rne y) - y\<bar> \<le> 1 / 2"
proof -
  have "of_int \<lfloor>y\<rfloor> \<le> y" "y < of_int \<lfloor>y\<rfloor> + 1" by linarith+
  then show ?thesis by (auto simp add: rne_def Let_def)
qed

lemma pow2_0: "pow2 0 = 1"
  by (simp add: pow2_def)

lemma pow2_numeral: "pow2 (numeral n) = 2 ^ numeral n"
  by (simp add: pow2_def)

lemma binary32_0: "binary32 0 = 0"
  by (simp add: binary32_def)

lemma binary32_pos_eq:
  "0 < x \<Longrightarrow> binary32 x = of_int (rne (x / pow2 (ilog2 x - 23))) * pow2 (ilog2 x - 23)"
  by (simp add: binary32_def Let_def)

lemma binary32_nonneg: assumes "0 \<le> x" shows "0 \<le> binary32 x"
proof (cases "x = 0")
  case True
  then show ?thesis by (simp add: binary32_0)
next
  case False
  with assms have x: "0 < x" by simp
  define u where "u = pow2 (ilog2 x - 23)"
  have u: "0 < u" by (simp add: u_def pow2_pos)
  with x have "of_int 0 \<le> x / u" by simp
  then have "0 \<le> rne (x / u)" by (rule rne_ge)
  with u show ?thesis by (simp add: binary32_pos_eq [OF x] flip: u_def)
qed

text \<open>A grid point below stays below, a grid point above stays above.\<close>

lemma binary32_ge_grid:
  assumes "0 < x" and "c \<le> x" and "c = of_int k * pow2 (ilog2 x - 23)"
  shows "c \<le> binary32 x"
proof -
  define u where "u = pow2 (ilog2 x - 23)"
  have u: "0 < u" by (simp add: u_def pow2_pos)
  from assms u have "of_int k \<le> x / u" by (simp add: u_def pos_le_divide_eq)
  then have "k \<le> rne (x / u)" by (rule rne_ge)
  then have "rat_of_int k \<le> of_int (rne (x / u))" by simp
  with u have "of_int k * u \<le> of_int (rne (x / u)) * u" by (simp add: mult_right_mono)
  with assms show ?thesis by (simp add: binary32_pos_eq [OF assms(1)] flip: u_def)
qed

lemma binary32_le_grid:
  assumes "0 < x" and "x \<le> c" and "c = of_int k * pow2 (ilog2 x - 23)"
  shows "binary32 x \<le> c"
proof -
  define u where "u = pow2 (ilog2 x - 23)"
  have u: "0 < u" by (simp add: u_def pow2_pos)
  from assms u have "x / u \<le> of_int k" by (simp add: u_def pos_divide_le_eq)
  then have "rne (x / u) \<le> k" by (rule rne_le)
  then have "rat_of_int (rne (x / u)) \<le> of_int k" by simp
  with u have "of_int (rne (x / u)) * u \<le> of_int k * u" by (simp add: mult_right_mono)
  with assms show ?thesis by (simp add: binary32_pos_eq [OF assms(1)] flip: u_def)
qed

text \<open>A natural number is on the grid of every exponent up to 23.\<close>

lemma nat_on_grid:
  assumes "e \<le> 23"
  shows "rat_of_nat n = of_int (int n * 2 ^ nat (23 - e)) * pow2 (e - 23)"
proof -
  have "pow2 (23 - e) * pow2 (e - 23) = 1"
    by (simp flip: pow2_add add: pow2_0)
  moreover have "pow2 (23 - e) = 2 ^ nat (23 - e)"
    using assms by (simp add: pow2_def)
  ultimately show ?thesis by (simp add: mult.assoc)
qed

lemma ilog2_less: assumes "0 < x" and "x < pow2 m" shows "ilog2 x < m"
proof -
  have "pow2 (ilog2 x) < pow2 m" using ilog2_lower [OF assms(1)] assms(2) by simp
  then show ?thesis by (rule pow2_less_cancel)
qed

lemma ilog2_ge: assumes "pow2 m \<le> x" shows "m \<le> ilog2 x"
proof -
  have "0 < x" using pow2_pos [of m] assms by simp
  then have "pow2 m < pow2 (ilog2 x + 1)" using ilog2_upper [of x] assms by simp
  then have "m < ilog2 x + 1" by (rule pow2_less_cancel)
  then show ?thesis by simp
qed

lemma binary32_le_nat:
  assumes "0 \<le> x" and "x \<le> of_nat n" and "n < 2 ^ 24"
  shows "binary32 x \<le> of_nat n"
proof (cases "x = 0")
  case True
  then show ?thesis by (simp add: binary32_0)
next
  case False
  with assms have x: "0 < x" by simp
  have "rat_of_nat n < of_nat (2 ^ 24)" using assms(3) by (simp only: of_nat_less_iff)
  then have "x < pow2 24" using assms(2) by (simp add: pow2_numeral)
  then have "ilog2 x \<le> 23" using ilog2_less [OF x, of 24] by simp
  then show ?thesis by (rule binary32_le_grid [OF x assms(2) nat_on_grid])
qed

lemma binary32_ge_pow2: assumes "0 < x" shows "pow2 (ilog2 x) \<le> binary32 x"
proof -
  have "pow2 (ilog2 x) = pow2 23 * pow2 (ilog2 x - 23)"
    by (simp flip: pow2_add)
  then have "pow2 (ilog2 x) = of_int (2 ^ 23) * pow2 (ilog2 x - 23)"
    by (simp add: pow2_numeral)
  with ilog2_lower [OF assms] show ?thesis
    by (intro binary32_ge_grid [OF assms])
qed

lemma binary32_ge_nat:
  assumes "of_nat n \<le> x" and "n < 2 ^ 24"
  shows "of_nat n \<le> binary32 x"
proof (cases "n = 0")
  case True
  with assms show ?thesis by (simp add: binary32_nonneg)
next
  case False
  with assms have x: "0 < x" by (metis of_nat_0_less_iff less_le_trans neq0_conv)
  show ?thesis
  proof (cases "ilog2 x \<le> 23")
    case True
    then show ?thesis by (rule binary32_ge_grid [OF x assms(1) nat_on_grid])
  next
    case False
    then have "pow2 24 \<le> pow2 (ilog2 x)" by (intro pow2_mono) simp
    also have "\<dots> \<le> binary32 x" by (rule binary32_ge_pow2 [OF x])
    finally have "2 ^ 24 \<le> binary32 x" by (simp add: pow2_numeral)
    moreover have "rat_of_nat n < of_nat (2 ^ 24)" using assms(2) by (simp only: of_nat_less_iff)
    ultimately show ?thesis by simp
  qed
qed

lemma binary32_of_nat: "n < 2 ^ 24 \<Longrightarrow> binary32 (of_nat n) = of_nat n"
  using binary32_le_nat [of "of_nat n" n] binary32_ge_nat [of n "of_nat n"] by simp

lemma binary32_error:
  assumes "0 < x" and "x < pow2 m"
  shows "\<bar>binary32 x - x\<bar> \<le> pow2 (m - 25)"
proof -
  define u where "u = pow2 (ilog2 x - 23)"
  have u: "0 < u" by (simp add: u_def pow2_pos)
  have "\<bar>of_int (rne (x / u)) - x / u\<bar> * u \<le> 1 / 2 * u"
    using rne_error [of "x / u"] u by (intro mult_right_mono) simp_all
  moreover have "\<bar>of_int (rne (x / u)) - x / u\<bar> * u = \<bar>(of_int (rne (x / u)) - x / u) * u\<bar>"
    using u by (simp add: abs_mult)
  moreover have "(of_int (rne (x / u)) - x / u) * u = of_int (rne (x / u)) * u - x"
    using u by (simp add: field_simps)
  moreover have "1 / 2 * u = pow2 (ilog2 x - 24)"
    using pow2_add [of "ilog2 x - 24" 1] by (simp add: u_def pow2_def)
  moreover have "pow2 (ilog2 x - 24) \<le> pow2 (m - 25)"
    using ilog2_less [OF assms] by (intro pow2_mono) simp
  ultimately show ?thesis by (simp add: binary32_pos_eq [OF assms(1)] flip: u_def)
qed

lemma binary32_error_le:
  assumes "0 \<le> x" and "x < pow2 m"
  shows "\<bar>binary32 x - x\<bar> \<le> pow2 (m - 25)"
proof (cases "x = 0")
  case True
  then show ?thesis using pow2_pos [of "m - 25"] by (simp add: binary32_0)
next
  case False
  with assms(1) have "0 < x" by simp
  then show ?thesis using assms(2) by (rule binary32_error)
qed

lemma ramp_up_error:
  assumes "0 \<le> q0" and "q0 < 1"
  shows "0 \<le> binary32 q0 \<and> binary32 q0 \<le> 1
       \<and> \<bar>binary32 (binary32 q0 * 255) - 255 * q0\<bar> \<le> pow2 (- 17) + 255 * pow2 (- 25)"
proof -
  define q where "q = binary32 q0"
  have q: "0 \<le> q" "q \<le> 1"
    using binary32_nonneg [OF assms(1)] binary32_le_nat [of q0 1] assms by (simp_all add: q_def)
  have "\<bar>q - q0\<bar> \<le> pow2 (0 - 25)"
    unfolding q_def using assms by (intro binary32_error_le) (simp_all add: pow2_0)
  then have eq: "\<bar>q * 255 - 255 * q0\<bar> \<le> 255 * pow2 (- 25)" by simp
  have "q * 255 < pow2 8" using q by (simp add: pow2_numeral)
  then have "\<bar>binary32 (q * 255) - q * 255\<bar> \<le> pow2 (8 - 25)"
    using q by (intro binary32_error_le) simp_all
  then have em: "\<bar>binary32 (q * 255) - q * 255\<bar> \<le> pow2 (- 17)" by simp
  from eq em have "\<bar>binary32 (q * 255) - 255 * q0\<bar> \<le> pow2 (- 17) + 255 * pow2 (- 25)"
    by linarith
  with q show ?thesis by (simp add: q_def)
qed

lemma ramp_down_error:
  assumes "0 \<le> q0" and "q0 < 1"
  shows "\<bar>binary32 (255 - binary32 (binary32 q0 * 255)) - (255 - 255 * q0)\<bar>
           \<le> 2 * pow2 (- 17) + 255 * pow2 (- 25)"
proof -
  define m where "m = binary32 (binary32 q0 * 255)"
  from ramp_up_error [OF assms]
  have q: "0 \<le> binary32 q0" "binary32 q0 \<le> 1"
    and em: "\<bar>m - 255 * q0\<bar> \<le> pow2 (- 17) + 255 * pow2 (- 25)"
    by (simp_all add: m_def)
  have m: "0 \<le> m" "m \<le> 255"
    using binary32_nonneg [of "binary32 q0 * 255"] binary32_le_nat [of "binary32 q0 * 255" 255] q
    by (simp_all add: m_def)
  then have "255 - m < pow2 8" by (simp add: pow2_numeral)
  then have "\<bar>binary32 (255 - m) - (255 - m)\<bar> \<le> pow2 (8 - 25)"
    using m by (intro binary32_error_le) simp_all
  then have "\<bar>binary32 (255 - m) - (255 - m)\<bar> \<le> pow2 (- 17)" by simp
  with em have "\<bar>binary32 (255 - m) - (255 - 255 * q0)\<bar> \<le> 2 * pow2 (- 17) + 255 * pow2 (- 25)"
    by linarith
  then show ?thesis by (simp add: m_def)
qed


section \<open>The brightness of a ramp\<close>

lemma CalculateBlinkSpeed_uint:
  "uint (CalculateBlinkSpeed p) = 100 * uint (blinkSpeedFactor p) + 70"
proof -
  define k where "k = uint (blinkSpeedFactor p) * 100 + 70"
  have "0 \<le> uint (blinkSpeedFactor p)" "uint (blinkSpeedFactor p) < 256"
    using uint_lt2p [of "blinkSpeedFactor p"] by simp_all
  then have k: "0 \<le> k" "k < 2 ^ 16" by (simp_all add: k_def)
  have "CalculateBlinkSpeed p = word_of_int k"
    by (simp only: CalculateBlinkSpeed_def BLINK_defs k_def)
  then have "uint (CalculateBlinkSpeed p) = k mod 2 ^ LENGTH(16)"
    by (simp only: uint_word_of_int)
  also have "\<dots> = k" using k by simp
  finally show ?thesis by (simp add: k_def)
qed

lemma CalculateBlinkSpeed_unat:
  "unat (CalculateBlinkSpeed p) = 100 * unat (blinkSpeedFactor p) + 70"
proof -
  have "int (unat (CalculateBlinkSpeed p)) = int (100 * unat (blinkSpeedFactor p) + 70)"
    using CalculateBlinkSpeed_uint [of p] by simp
  then show ?thesis by (simp only: of_nat_eq_iff)
qed

lemma CalculateBlinkSpeed_fits_int:
  "uint (blinkSpeedFactor p) * BLINK_SPEED_FACTOR_MULTIPLIER_IN_MILLISECONDS
     + BLINK_SPEED_MINIMUM_IN_MILLISECONDS \<le> INT_MAX"
proof -
  have "uint (blinkSpeedFactor p) < 256" using uint_lt2p [of "blinkSpeedFactor p"] by simp
  then show ?thesis by (simp add: BLINK_defs INT_MAX_def)
qed

lemma float_of_nat_nonneg: "0 \<le> float_of_nat n"
  unfolding float_of_nat_def by (rule binary32_nonneg) simp

lemma elapsedTimePercent_range:
  "0 \<le> elapsedTimePercent ms sp \<and> elapsedTimePercent ms sp \<le> 1"
proof -
  have "0 \<le> float_of_nat (unat ms)" "0 \<le> float_of_nat (unat sp)"
    by (rule float_of_nat_nonneg)+
  then have "0 \<le> float_div (float_of_nat (unat ms)) (float_of_nat (unat sp))"
    by (simp add: float_div_def binary32_nonneg)
  then show ?thesis by (simp add: elapsedTimePercent_def Let_def)
qed

lemma brightened_range: "0 \<le> brightened ms sp \<and> brightened ms sp \<le> 255"
proof -
  from elapsedTimePercent_range [of ms sp]
  have "0 \<le> elapsedTimePercent ms sp * 255" "elapsedTimePercent ms sp * 255 \<le> of_nat 255"
    by simp_all
  then show ?thesis
    using binary32_nonneg [of "elapsedTimePercent ms sp * 255"]
      binary32_le_nat [of "elapsedTimePercent ms sp * 255" 255]
    by (simp add: brightened_def float_mul_def)
qed

lemma dimmed_range: "0 \<le> dimmed ms sp \<and> dimmed ms sp \<le> 255"
proof -
  from brightened_range [of ms sp]
  have "0 \<le> 255 - brightened ms sp" "255 - brightened ms sp \<le> of_nat 255"
    by simp_all
  then show ?thesis
    using binary32_nonneg [of "255 - brightened ms sp"]
      binary32_le_nat [of "255 - brightened ms sp" 255]
    by (simp add: dimmed_def brightened_def float_sub_def)
qed

lemma uint_float_to_u8:
  assumes "0 \<le> x" and "x \<le> 255"
  shows "uint (float_to_u8 x) = \<lfloor>x\<rfloor>"
proof -
  from assms have "0 \<le> \<lfloor>x\<rfloor>" "\<lfloor>x\<rfloor> < 256" by (simp_all add: floor_less_iff)
  then show ?thesis
    using assms(1) by (simp add: float_to_u8_def float_trunc_def uint_word_of_int take_bit_int_eq_self)
qed

lemma ratio_full:
  assumes "R \<le> e" and "0 < R" and "R < 2 ^ 24"
  shows "1 \<le> float_div (float_of_nat e) (float_of_nat R)"
proof -
  have b: "float_of_nat R = of_nat R"
    unfolding float_of_nat_def using assms(3) by (rule binary32_of_nat)
  have "rat_of_nat R \<le> of_nat e" using assms(1) by simp
  then have a: "of_nat R \<le> float_of_nat e"
    unfolding float_of_nat_def using assms(3) by (rule binary32_ge_nat)
  have "of_nat 1 \<le> float_of_nat e / of_nat R"
    using a assms(2) by (simp add: pos_le_divide_eq)
  then have "of_nat 1 \<le> binary32 (float_of_nat e / of_nat R)"
    by (rule binary32_ge_nat) simp
  then show ?thesis by (simp add: float_div_def b)
qed

lemma elapsedTimePercent_full:
  assumes "unat sp \<le> unat ms" and "0 < unat sp"
  shows "elapsedTimePercent ms sp = 1"
proof -
  have "unat sp < 2 ^ LENGTH(16)" by (rule unsigned_less)
  then have sp: "unat sp < 2 ^ 24" by simp
  from ratio_full [OF assms sp] show ?thesis
    unfolding elapsedTimePercent_def Let_def by simp
qed

lemma binary32_255: "binary32 255 = 255"
  using binary32_of_nat [of 255] by simp

lemma brightened_full:
  assumes "unat sp \<le> unat ms" and "0 < unat sp"
  shows "brightened ms sp = 255"
  by (simp add: brightened_def float_mul_def elapsedTimePercent_full [OF assms] binary32_255)

lemma dimmed_full:
  assumes "unat sp \<le> unat ms" and "0 < unat sp"
  shows "dimmed ms sp = 0"
  by (simp add: dimmed_def float_mul_def float_sub_def elapsedTimePercent_full [OF assms]
      binary32_255 binary32_0)

lemma CalculateBlinkSpeed_bounds:
  "0 < unat (CalculateBlinkSpeed p)" "unat (CalculateBlinkSpeed p) \<le> 32768"
proof -
  have "unat (blinkSpeedFactor p) < 2 ^ LENGTH(8)" by (rule unsigned_less)
  then show "0 < unat (CalculateBlinkSpeed p)" "unat (CalculateBlinkSpeed p) \<le> 32768"
    by (simp_all add: CalculateBlinkSpeed_unat)
qed


lemma rounding_budget: "2 * pow2 (- 17) + 255 * pow2 (- 25) < 1 / 32768"
  "pow2 (- 17) + 255 * pow2 (- 25) < 1 / 32768"
  by (simp_all add: pow2_def)

text \<open>A float within \<open>1 / 32768\<close> of a fraction with a denominator up to 32768 has the
  integer part of that fraction, or one less.\<close>

lemma floor_near_fraction:
  fixes s :: rat
  assumes "\<bar>s - of_int N / of_nat R\<bar> < 1 / 32768" and "0 < R" and "R \<le> 32768"
  shows "rat_of_int N / of_nat R - 1 \<le> of_int \<lfloor>s\<rfloor> \<and> rat_of_int \<lfloor>s\<rfloor> \<le> of_int N / of_nat R"
proof -
  define b where "b = \<lfloor>s\<rfloor>"
  define r :: rat where "r = of_nat R"
  have r: "0 < r" "r \<le> 32768" using assms(2,3) by (simp_all add: r_def)
  then have inv: "1 / 32768 \<le> 1 / r" by (simp add: field_simps)
  have b: "of_int b \<le> s" "s < of_int b + 1" unfolding b_def by linarith+
  from assms(1) inv have near: "s < of_int N / r + 1 / r" "of_int N / r - 1 / r < s"
    unfolding r_def by linarith+
  from b(1) near(1) have "of_int b < of_int N / r + 1 / r" by linarith
  then have "of_int b * r < of_int N + 1" using r(1) by (simp add: field_simps)
  then have "rat_of_int (b * int R) < of_int (N + 1)" by (simp add: r_def)
  then have "b * int R < N + 1" by (simp only: of_int_less_iff)
  then have "b * int R \<le> N" by simp
  then have "rat_of_int (b * int R) \<le> of_int N" by (simp only: of_int_le_iff)
  then have upper: "of_int b \<le> of_int N / r" using r(1) by (simp add: field_simps r_def)
  from b(2) near(2) have "of_int N / r - 1 / r - 1 < of_int b" by linarith
  then have "of_int N - 1 - r < of_int b * r" using r(1) by (simp add: field_simps)
  then have "rat_of_int (N - 1 - int R) < of_int (b * int R)" by (simp add: r_def)
  then have "N - 1 - int R < b * int R" by (simp only: of_int_less_iff)
  then have "N - int R \<le> b * int R" by simp
  then have "rat_of_int (N - int R) \<le> of_int (b * int R)" by (simp only: of_int_le_iff)
  then have lower: "of_int N / r - 1 \<le> of_int b" using r(1) by (simp add: field_simps r_def)
  from lower upper show ?thesis by (simp add: b_def r_def)
qed

lemma float_of_nat_exact: "n < 2 ^ 24 \<Longrightarrow> float_of_nat n = of_nat n"
  unfolding float_of_nat_def by (rule binary32_of_nat)

lemma ratio_below:
  assumes "e < R" and "R \<le> 32768"
  shows "float_div (float_of_nat e) (float_of_nat R) = binary32 (of_nat e / of_nat R)"
    and "\<not> 1 < binary32 (rat_of_nat e / of_nat R)"
    and "0 \<le> rat_of_nat e / of_nat R" and "rat_of_nat e / of_nat R < 1"
proof -
  from assms have "e < 2 ^ 24" "R < 2 ^ 24" by simp_all
  then show "float_div (float_of_nat e) (float_of_nat R) = binary32 (of_nat e / of_nat R)"
    by (simp add: float_div_def float_of_nat_exact)
  show q0: "0 \<le> rat_of_nat e / of_nat R" "rat_of_nat e / of_nat R < 1"
    using assms(1) by simp_all
  from ramp_up_error [OF q0] show "\<not> 1 < binary32 (rat_of_nat e / of_nat R)" by simp
qed

lemma brightening_value_nat:
  assumes "e < R" and "R \<le> 32768"
  shows "linear_brightening e R - 1
           \<le> of_int \<lfloor>float_mul (let pct = float_div (float_of_nat e) (float_of_nat R)
                                  in if 1 < pct then 1 else pct) 255\<rfloor>
       \<and> rat_of_int \<lfloor>float_mul (let pct = float_div (float_of_nat e) (float_of_nat R)
                                  in if 1 < pct then 1 else pct) 255\<rfloor>
           \<le> linear_brightening e R"
proof -
  note r = ratio_below [OF assms]
  define q0 where "q0 = rat_of_nat e / of_nat R"
  have lin: "linear_brightening e R = of_int (255 * int e) / of_nat R"
    using r(4) by (simp add: linear_brightening_def min_def)
  have "\<bar>binary32 (binary32 q0 * 255) - 255 * q0\<bar> < 1 / 32768"
    using ramp_up_error [OF r(3,4)] rounding_budget(2) unfolding q0_def by linarith
  moreover have "255 * q0 = of_int (255 * int e) / of_nat R" by (simp add: q0_def)
  ultimately have "\<bar>binary32 (binary32 q0 * 255) - of_int (255 * int e) / of_nat R\<bar> < 1 / 32768"
    by simp
  moreover have "\<not> 1 < binary32 q0" using r(2) by (simp add: q0_def)
  ultimately show ?thesis
    using floor_near_fraction [OF _ _ assms(2), of "binary32 (binary32 q0 * 255)" "255 * int e"]
      assms(1)
    by (simp add: lin float_mul_def r(1) Let_def flip: q0_def)
qed

lemma dimming_value_nat:
  assumes "e < R" and "R \<le> 32768"
  shows "linear_dimming e R - 1
           \<le> of_int \<lfloor>float_sub 255 (float_mul (let pct = float_div (float_of_nat e) (float_of_nat R)
                                  in if 1 < pct then 1 else pct) 255)\<rfloor>
       \<and> rat_of_int \<lfloor>float_sub 255 (float_mul (let pct = float_div (float_of_nat e) (float_of_nat R)
                                  in if 1 < pct then 1 else pct) 255)\<rfloor>
           \<le> linear_dimming e R"
proof -
  note r = ratio_below [OF assms]
  define q0 where "q0 = rat_of_nat e / of_nat R"
  have R: "rat_of_nat R \<noteq> 0" using assms(1) by simp
  have "255 - 255 * q0 = (255 * of_nat R - 255 * of_nat e) / rat_of_nat R"
    using R by (simp add: q0_def field_simps)
  also have "\<dots> = of_int (255 * int R - 255 * int e) / of_nat R" by simp
  finally have frac: "255 - 255 * q0 = of_int (255 * int R - 255 * int e) / of_nat R" .
  have lin: "linear_dimming e R = of_int (255 * int R - 255 * int e) / of_nat R"
    using r(4) frac by (simp add: linear_dimming_def min_def q0_def)
  have "\<bar>binary32 (255 - binary32 (binary32 q0 * 255)) - (255 - 255 * q0)\<bar> < 1 / 32768"
    using ramp_down_error [OF r(3,4)] rounding_budget(1) unfolding q0_def by linarith
  then have "\<bar>binary32 (255 - binary32 (binary32 q0 * 255))
               - of_int (255 * int R - 255 * int e) / of_nat R\<bar> < 1 / 32768"
    by (simp only: frac)
  moreover have "\<not> 1 < binary32 q0" using r(2) by (simp add: q0_def)
  ultimately show ?thesis
    using floor_near_fraction [OF _ _ assms(2),
        of "binary32 (255 - binary32 (binary32 q0 * 255))" "255 * int R - 255 * int e"]
      assms(1)
    by (simp add: lin float_mul_def float_sub_def r(1) Let_def flip: q0_def)
qed

lemma unat_float_to_u8:
  assumes "0 \<le> x" and "x \<le> 255"
  shows "rat_of_nat (unat (float_to_u8 x)) = of_int \<lfloor>x\<rfloor>"
proof -
  from assms have "0 \<le> \<lfloor>x\<rfloor>" by simp
  then have "int (unat (float_to_u8 x)) = \<lfloor>x\<rfloor>"
    using uint_float_to_u8 [OF assms] by simp
  then have "rat_of_int (int (unat (float_to_u8 x))) = of_int \<lfloor>x\<rfloor>" by (simp only:)
  then show ?thesis by (simp only: of_int_of_nat_eq)
qed

lemma linear_full:
  assumes "R \<le> e" and "0 < R"
  shows "linear_dimming e R = 0" and "linear_brightening e R = 255"
proof -
  have "1 \<le> rat_of_nat e / of_nat R" using assms by (simp add: pos_le_divide_eq)
  then show "linear_dimming e R = 0" and "linear_brightening e R = 255"
    by (simp_all add: linear_dimming_def linear_brightening_def min_def)
qed

lemma dimmed_linear:
  assumes "0 < unat sp" and "unat sp \<le> 32768"
  shows "linear_dimming (unat ms) (unat sp) - 1 \<le> of_nat (unat (float_to_u8 (dimmed ms sp)))
       \<and> rat_of_nat (unat (float_to_u8 (dimmed ms sp))) \<le> linear_dimming (unat ms) (unat sp)"
proof (cases "unat ms < unat sp")
  case True
  have "rat_of_nat (unat (float_to_u8 (dimmed ms sp))) = of_int \<lfloor>dimmed ms sp\<rfloor>"
    using dimmed_range [of ms sp] by (intro unat_float_to_u8) simp_all
  then show ?thesis
    using dimming_value_nat [OF True assms(2)]
    by (simp only: dimmed_def elapsedTimePercent_def)
next
  case False
  then have full: "unat sp \<le> unat ms" by simp
  have "float_to_u8 (dimmed ms sp) = 0"
    by (simp add: dimmed_full [OF full assms(1)] float_to_u8_def float_trunc_def)
  then show ?thesis by (simp add: linear_full [OF full assms(1)])
qed

lemma brightened_linear:
  assumes "0 < unat sp" and "unat sp \<le> 32768"
  shows "linear_brightening (unat ms) (unat sp) - 1 \<le> of_nat (unat (float_to_u8 (brightened ms sp)))
       \<and> rat_of_nat (unat (float_to_u8 (brightened ms sp))) \<le> linear_brightening (unat ms) (unat sp)"
proof (cases "unat ms < unat sp")
  case True
  have "rat_of_nat (unat (float_to_u8 (brightened ms sp))) = of_int \<lfloor>brightened ms sp\<rfloor>"
    using brightened_range [of ms sp] by (intro unat_float_to_u8) simp_all
  then show ?thesis
    using brightening_value_nat [OF True assms(2)]
    by (simp only: brightened_def elapsedTimePercent_def)
next
  case False
  then have full: "unat sp \<le> unat ms" by simp
  have "float_to_u8 (brightened ms sp) = 255"
    by (simp add: brightened_full [OF full assms(1)] float_to_u8_def float_trunc_def)
  then show ?thesis by (simp add: linear_full [OF full assms(1)])
qed

lemma uint_u8_le: "\<not> 255 < uint (b :: u8)"
  using uint_lt2p [of b] by simp

lemma dimming_step:
  assumes "shouldBlink p" and "direction p = down" and "brightness p \<noteq> 0"
  shows "CalculateBlinkAnimationParameters p w =
     (if float_to_u8 (dimmed (millisecondsSinceSet p (millis_at w (millis_calls w)))
                        (CalculateBlinkSpeed p)) = 0
      then (p\<lparr>brightness := 0,
              timeZeroBrightnessWasEncountered := millis_at w (Suc (millis_calls w))\<rparr>,
            w\<lparr>millis_calls := Suc (Suc (millis_calls w))\<rparr>)
      else (p\<lparr>brightness :=
                float_to_u8 (dimmed (millisecondsSinceSet p (millis_at w (millis_calls w)))
                               (CalculateBlinkSpeed p))\<rparr>,
            w\<lparr>millis_calls := Suc (millis_calls w)\<rparr>))"
  using assms by (simp add: CalculateBlinkAnimationParameters_def millis_def Let_def)

lemma brightening_step:
  assumes "shouldBlink p" and "direction p = up" and "brightness p \<noteq> 255"
  shows "CalculateBlinkAnimationParameters p w =
     (if float_to_u8 (brightened (millisecondsSinceSet p (millis_at w (millis_calls w)))
                        (CalculateBlinkSpeed p)) = 255
      then (p\<lparr>brightness := 255,
              timeFullBrightnessWasEncountered := millis_at w (Suc (millis_calls w))\<rparr>,
            w\<lparr>millis_calls := Suc (Suc (millis_calls w))\<rparr>)
      else (p\<lparr>brightness :=
                float_to_u8 (brightened (millisecondsSinceSet p (millis_at w (millis_calls w)))
                               (CalculateBlinkSpeed p))\<rparr>,
            w\<lparr>millis_calls := Suc (millis_calls w)\<rparr>))"
  using assms by (simp add: CalculateBlinkAnimationParameters_def millis_def Let_def uint_u8_le)

text \<open>
  Claim C1. After every call of \<^verbatim>\<open>GetColor\<close> the brightness is a number from 0 to 255.
  A call leaves the brightness as it was, sets it to 255, or assigns the float computed by
  the dimming or the brightening update, converted to 8 bits. The divisor of these updates,
  the blink speed, is never 0; the elapsed-time ratio is cut off at 1 and lies between 0
  and 1; and both floats, \<open>255 - ratio * 255\<close> and \<open>ratio * 255\<close>, lie between 0 and
  255 for every elapsed time and every speed, so their conversion is defined and nothing
  outside 0 to 255 is ever written.
\<close>

theorem brightness_in_range:
  "unat (brightness (fst (snd (GetColor p w)))) \<le> 255
   \<and> (brightness (fst (snd (GetColor p w))) = brightness p
      \<or> brightness (fst (snd (GetColor p w))) = 255
      \<or> brightness (fst (snd (GetColor p w)))
          = float_to_u8 (dimmed (millisecondsSinceSet p (millis_at w (millis_calls w)))
                           (CalculateBlinkSpeed p))
      \<or> brightness (fst (snd (GetColor p w)))
          = float_to_u8 (brightened (millisecondsSinceSet p (millis_at w (millis_calls w)))
                           (CalculateBlinkSpeed p)))
   \<and> 0 < unat (CalculateBlinkSpeed p)
   \<and> 0 \<le> elapsedTimePercent ms sp \<and> elapsedTimePercent ms sp \<le> 1
   \<and> 0 \<le> dimmed ms sp \<and> dimmed ms sp \<le> 255 \<and> float_fits_u8 (dimmed ms sp)
   \<and> 0 \<le> brightened ms sp \<and> brightened ms sp \<le> 255 \<and> float_fits_u8 (brightened ms sp)"
proof -
  have "unat (brightness (fst (snd (GetColor p w)))) < 2 ^ LENGTH(8)" by (rule unsigned_less)
  then have "unat (brightness (fst (snd (GetColor p w)))) \<le> 255" by simp
  moreover have "brightness (fst (snd (GetColor p w))) = brightness p
      \<or> brightness (fst (snd (GetColor p w))) = 255
      \<or> brightness (fst (snd (GetColor p w)))
          = float_to_u8 (dimmed (millisecondsSinceSet p (millis_at w (millis_calls w)))
                           (CalculateBlinkSpeed p))
      \<or> brightness (fst (snd (GetColor p w)))
          = float_to_u8 (brightened (millisecondsSinceSet p (millis_at w (millis_calls w)))
                           (CalculateBlinkSpeed p))"
    by (simp add: GetColor_state CalculateBlinkAnimationParameters_def millis_def Let_def
        Randomize_simps uint_u8_le)
  ultimately show ?thesis
    using CalculateBlinkSpeed_bounds(1) [of p] elapsedTimePercent_range [of ms sp]
      dimmed_range [of ms sp] brightened_range [of ms sp]
    by (simp add: float_fits_u8_def)
qed

text \<open>A brightness between 126.5 and 127.5 is 127.\<close>

lemma half_way:
  fixes b :: u8
  assumes "255 / 2 - 1 \<le> rat_of_nat (unat b)" and "rat_of_nat (unat b) \<le> 255 / 2"
  shows "b = 127"
proof -
  define n where "n = unat b"
  from assms have "rat_of_nat 253 \<le> of_nat (2 * n)" "rat_of_nat (2 * n) \<le> of_nat 255"
    unfolding n_def [symmetric] by simp_all
  then have "253 \<le> 2 * n" "2 * n \<le> 255" by (simp_all only: of_nat_le_iff)
  then have "n = 127" by arith
  then have "unat b = unat (127 :: u8)" by (simp add: n_def)
  then show ?thesis by (simp only: word_unat_eq_iff)
qed

text \<open>
  Claim C2. In the middle of a ramp the brightness is the linear function of the elapsed
  time \<open>e\<close>, taken at the first clock reading of the call, cut to an integer: it lies
  between \<open>255 \<times> (1 - min(e/R, 1)) - 1\<close> and \<open>255 \<times> (1 - min(e/R, 1))\<close> while
  dimming, and between \<open>255 \<times> min(e/R, 1) - 1\<close> and \<open>255 \<times> min(e/R, 1)\<close> while
  brightening, where \<open>R\<close> is the blink speed of the pixel. From \<open>e = R\<close> on the
  brightness is exactly 0 (or 255), and the time of zero (or full) brightness is recorded
  as the clock value read next, which is the clock value of the call when the clock does
  not tick within the call. The two updates obey the same law for every ramp duration up
  to 32768 ms; for a ramp of 1000 ms they give 127 after 500 ms, and 0 (or 255) after
  1000 ms.
\<close>

theorem ramp_brightness:
  fixes p :: ChristmasPixel and w :: world
  defines "e \<equiv> unat (millisecondsSinceSet p (millis_at w (millis_calls w)))"
    and "R \<equiv> unat (CalculateBlinkSpeed p)"
    and "p' \<equiv> fst (snd (GetColor p w))"
  assumes "shouldBlink p"
  shows "R = 100 * unat (blinkSpeedFactor p) + 70
       \<and> (direction p = down \<and> brightness p \<noteq> 0 \<longrightarrow>
            linear_dimming e R - 1 \<le> of_nat (unat (brightness p'))
            \<and> rat_of_nat (unat (brightness p')) \<le> linear_dimming e R
            \<and> (R \<le> e \<longrightarrow>
                 brightness p' = 0
                 \<and> timeZeroBrightnessWasEncountered p' = millis_at w (Suc (millis_calls w))
                 \<and> (millis_at w (Suc (millis_calls w)) = millis_at w (millis_calls w) \<longrightarrow>
                      timeZeroBrightnessWasEncountered p' = millis_at w (millis_calls w))))
       \<and> (direction p = up \<and> brightness p \<noteq> 255 \<longrightarrow>
            linear_brightening e R - 1 \<le> of_nat (unat (brightness p'))
            \<and> rat_of_nat (unat (brightness p')) \<le> linear_brightening e R
            \<and> (R \<le> e \<longrightarrow>
                 brightness p' = 255
                 \<and> timeFullBrightnessWasEncountered p' = millis_at w (Suc (millis_calls w))
                 \<and> (millis_at w (Suc (millis_calls w)) = millis_at w (millis_calls w) \<longrightarrow>
                      timeFullBrightnessWasEncountered p' = millis_at w (millis_calls w))))
       \<and> (0 < unat sp \<and> unat sp \<le> 32768 \<longrightarrow>
            linear_dimming (unat ms) (unat sp) - 1 \<le> of_nat (unat (float_to_u8 (dimmed ms sp)))
            \<and> rat_of_nat (unat (float_to_u8 (dimmed ms sp))) \<le> linear_dimming (unat ms) (unat sp)
            \<and> linear_brightening (unat ms) (unat sp) - 1
                 \<le> of_nat (unat (float_to_u8 (brightened ms sp)))
            \<and> rat_of_nat (unat (float_to_u8 (brightened ms sp)))
                 \<le> linear_brightening (unat ms) (unat sp))
       \<and> float_to_u8 (dimmed 500 1000) = 127 \<and> float_to_u8 (dimmed 1000 1000) = 0
       \<and> float_to_u8 (brightened 500 1000) = 127 \<and> float_to_u8 (brightened 1000 1000) = 255"
proof -
  have speed: "R = 100 * unat (blinkSpeedFactor p) + 70"
    by (simp add: R_def CalculateBlinkSpeed_unat)
  have dimming: "linear_dimming e R - 1 \<le> of_nat (unat (brightness p'))
      \<and> rat_of_nat (unat (brightness p')) \<le> linear_dimming e R
      \<and> (R \<le> e \<longrightarrow>
           brightness p' = 0
           \<and> timeZeroBrightnessWasEncountered p' = millis_at w (Suc (millis_calls w))
           \<and> (millis_at w (Suc (millis_calls w)) = millis_at w (millis_calls w) \<longrightarrow>
                timeZeroBrightnessWasEncountered p' = millis_at w (millis_calls w)))"
    if a: "direction p = down \<and> brightness p \<noteq> 0"
  proof -
    define b where "b = float_to_u8 (dimmed (millisecondsSinceSet p (millis_at w (millis_calls w)))
                          (CalculateBlinkSpeed p))"
    have b: "brightness p' = b"
      using a assms by (simp add: p'_def GetColor_state dimming_step b_def)
    from dimmed_linear [where sp = "CalculateBlinkSpeed p"
        and ms = "millisecondsSinceSet p (millis_at w (millis_calls w))",
        OF CalculateBlinkSpeed_bounds]
    have law: "linear_dimming e R - 1 \<le> of_nat (unat (brightness p'))"
      "rat_of_nat (unat (brightness p')) \<le> linear_dimming e R"
      by (simp_all only: b b_def e_def R_def)
    have full: "brightness p' = 0
        \<and> timeZeroBrightnessWasEncountered p' = millis_at w (Suc (millis_calls w))"
      if "R \<le> e"
    proof -
      from that
      have "dimmed (millisecondsSinceSet p (millis_at w (millis_calls w)))
              (CalculateBlinkSpeed p) = 0"
        unfolding R_def e_def using CalculateBlinkSpeed_bounds(1) by (rule dimmed_full)
      then have "b = 0" by (simp add: b_def float_to_u8_def float_trunc_def)
      then show ?thesis
        using a assms by (simp add: p'_def GetColor_state dimming_step b_def)
    qed
    from law full show ?thesis by simp
  qed
  have brightening: "linear_brightening e R - 1 \<le> of_nat (unat (brightness p'))
      \<and> rat_of_nat (unat (brightness p')) \<le> linear_brightening e R
      \<and> (R \<le> e \<longrightarrow>
           brightness p' = 255
           \<and> timeFullBrightnessWasEncountered p' = millis_at w (Suc (millis_calls w))
           \<and> (millis_at w (Suc (millis_calls w)) = millis_at w (millis_calls w) \<longrightarrow>
                timeFullBrightnessWasEncountered p' = millis_at w (millis_calls w)))"
    if a: "direction p = up \<and> brightness p \<noteq> 255"
  proof -
    define b where "b = float_to_u8 (brightened (millisecondsSinceSet p (millis_at w (millis_calls w)))
                          (CalculateBlinkSpeed p))"
    have b: "brightness p' = b"
      using a assms by (simp add: p'_def GetColor_state brightening_step b_def)
    from brightened_linear [where sp = "CalculateBlinkSpeed p"
        and ms = "millisecondsSinceSet p (millis_at w (millis_calls w))",
        OF CalculateBlinkSpeed_bounds]
    have law: "linear_brightening e R - 1 \<le> of_nat (unat (brightness p'))"
      "rat_of_nat (unat (brightness p')) \<le> linear_brightening e R"
      by (simp_all only: b b_def e_def R_def)
    have full: "brightness p' = 255
        \<and> timeFullBrightnessWasEncountered p' = millis_at w (Suc (millis_calls w))"
      if "R \<le> e"
    proof -
      from that
      have "brightened (millisecondsSinceSet p (millis_at w (millis_calls w)))
              (CalculateBlinkSpeed p) = 255"
        unfolding R_def e_def using CalculateBlinkSpeed_bounds(1) by (rule brightened_full)
      then have "b = 255" by (simp add: b_def float_to_u8_def float_trunc_def)
      then show ?thesis
        using a assms by (simp add: p'_def GetColor_state brightening_step b_def)
    qed
    from law full show ?thesis by simp
  qed
  have any_ramp: "linear_dimming (unat ms) (unat sp) - 1 \<le> of_nat (unat (float_to_u8 (dimmed ms sp)))
      \<and> rat_of_nat (unat (float_to_u8 (dimmed ms sp))) \<le> linear_dimming (unat ms) (unat sp)
      \<and> linear_brightening (unat ms) (unat sp) - 1
           \<le> of_nat (unat (float_to_u8 (brightened ms sp)))
      \<and> rat_of_nat (unat (float_to_u8 (brightened ms sp)))
           \<le> linear_brightening (unat ms) (unat sp)"
    if "0 < unat sp \<and> unat sp \<le> 32768"
    using that dimmed_linear [of sp ms] brightened_linear [of sp ms] by blast
  have scenario: "float_to_u8 (dimmed 500 1000) = 127 \<and> float_to_u8 (dimmed 1000 1000) = 0
       \<and> float_to_u8 (brightened 500 1000) = 127 \<and> float_to_u8 (brightened 1000 1000) = 255"
  proof -
    have sp: "0 < unat (1000 :: u16)" "unat (1000 :: u16) \<le> 32768"
      and full: "unat (1000 :: u16) \<le> unat (1000 :: u32)"
      by simp_all
    have lin: "linear_dimming (unat (500 :: u32)) (unat (1000 :: u16)) = 255 / 2"
      "linear_brightening (unat (500 :: u32)) (unat (1000 :: u16)) = 255 / 2"
      by (simp_all add: linear_dimming_def linear_brightening_def)
    have "float_to_u8 (dimmed 500 1000) = 127"
      using dimmed_linear [OF sp, of 500] unfolding lin by (intro half_way) simp_all
    moreover have "float_to_u8 (brightened 500 1000) = 127"
      using brightened_linear [OF sp, of 500] unfolding lin by (intro half_way) simp_all
    moreover have "float_to_u8 (dimmed 1000 1000) = 0"
      by (simp add: dimmed_full [OF full sp(1)] float_to_u8_def float_trunc_def)
    moreover have "float_to_u8 (brightened 1000 1000) = 255"
      by (simp add: brightened_full [OF full sp(1)] float_to_u8_def float_trunc_def)
    ultimately show ?thesis by simp
  qed
  from speed dimming brightening any_ramp scenario show ?thesis by blast
qed

text \<open>
  The bright pixel has a ramp of 370 ms. Half-way, 185 ms after the start, the linear
  function is 127.5 and the brightness 127. After 370 ms the brightness is 0 and the zero
  time is the clock value read next: 274, the value of the call, when the clock stands
  still, and 275 when it ticks at every reading. The same pixel brightening from 0: 127
  half-way, and 255 after 370 ms. A ramp of 1000 ms: 127.5 and 127 after 500 ms.
\<close>

theorem ramp_brightness_witness:
  "shouldBlink bright_pixel \<and> direction bright_pixel = down \<and> brightness bright_pixel \<noteq> 0
   \<and> unat (CalculateBlinkSpeed bright_pixel) = 370
   \<and> unat (millisecondsSinceSet bright_pixel (millis_at (ticking_world 89) 0)) = 185
   \<and> linear_dimming 185 370 = 255 / 2
   \<and> brightness (fst (snd (GetColor bright_pixel (ticking_world 89)))) = 127
   \<and> unat (millisecondsSinceSet bright_pixel (millis_at (pausing_world 274) 0)) = 370
   \<and> brightness (fst (snd (GetColor bright_pixel (pausing_world 274)))) = 0
   \<and> timeZeroBrightnessWasEncountered (fst (snd (GetColor bright_pixel (pausing_world 274))))
       = 274
   \<and> brightness (fst (snd (GetColor bright_pixel (ticking_world 274)))) = 0
   \<and> timeZeroBrightnessWasEncountered (fst (snd (GetColor bright_pixel (ticking_world 274))))
       = 275
   \<and> linear_brightening 185 370 = 255 / 2
   \<and> brightness (fst (snd (GetColor (bright_pixel\<lparr>direction := up, brightness := 0\<rparr>)
                               (ticking_world 89)))) = 127
   \<and> brightness (fst (snd (GetColor (bright_pixel\<lparr>direction := up, brightness := 0\<rparr>)
                               (pausing_world 274)))) = 255
   \<and> timeFullBrightnessWasEncountered
         (fst (snd (GetColor (bright_pixel\<lparr>direction := up, brightness := 0\<rparr>)
                      (pausing_world 274)))) = 274
   \<and> 0 < unat (1000 :: u16) \<and> unat (1000 :: u16) \<le> 32768
   \<and> linear_dimming 500 1000 = 255 / 2
   \<and> float_to_u8 (dimmed 500 1000) = 127 \<and> float_to_u8 (dimmed 1000 1000) = 0"
proof -
  have blinks: "shouldBlink bright_pixel" "direction bright_pixel = down"
    "brightness bright_pixel \<noteq> 0"
    by (simp_all add: bright_pixel_def)
  have dimming: "unat (CalculateBlinkSpeed bright_pixel) = 370
   \<and> unat (millisecondsSinceSet bright_pixel (millis_at (ticking_world 89) 0)) = 185
   \<and> linear_dimming 185 370 = 255 / 2
   \<and> brightness (fst (snd (GetColor bright_pixel (ticking_world 89)))) = 127
   \<and> unat (millisecondsSinceSet bright_pixel (millis_at (pausing_world 274) 0)) = 370
   \<and> brightness (fst (snd (GetColor bright_pixel (pausing_world 274)))) = 0
   \<and> timeZeroBrightnessWasEncountered (fst (snd (GetColor bright_pixel (pausing_world 274))))
       = 274
   \<and> brightness (fst (snd (GetColor bright_pixel (ticking_world 274)))) = 0
   \<and> timeZeroBrightnessWasEncountered (fst (snd (GetColor bright_pixel (ticking_world 274))))
       = 275"
    by code_simp
  have brightening: "linear_brightening 185 370 = 255 / 2
   \<and> brightness (fst (snd (GetColor (bright_pixel\<lparr>direction := up, brightness := 0\<rparr>)
                               (ticking_world 89)))) = 127
   \<and> brightness (fst (snd (GetColor (bright_pixel\<lparr>direction := up, brightness := 0\<rparr>)
                               (pausing_world 274)))) = 255
   \<and> timeFullBrightnessWasEncountered
         (fst (snd (GetColor (bright_pixel\<lparr>direction := up, brightness := 0\<rparr>)
                      (pausing_world 274)))) = 274"
    by code_simp
  have ramp: "0 < unat (1000 :: u16) \<and> unat (1000 :: u16) \<le> 32768
   \<and> linear_dimming 500 1000 = 255 / 2"
    by code_simp
  from ramp_brightness [OF blinks(1), of "pausing_world 274" 1000 500] blinks dimming
    brightening ramp
  show ?thesis by blast
qed

section \<open>The end of a dimming ramp without delays\<close>





section \<open>The hold at zero brightness and the turn to brightening\<close>

text \<open>
  Claim C3. A blinking pixel that is dimming and has brightness 0 turns to brightening in a
  call of \<^verbatim>\<open>GetColor\<close> exactly when the time since zero brightness was reached, taken at
  the first clock reading of the call, exceeds the zero delay. When it turns, the hue, the
  speed factor, the zero delay and the full delay are set from four fresh values of the
  generator, and the set time becomes the clock reading taken after them (the sixth of
  the call). When it does not turn, the pixel is unchanged.
\<close>

theorem zero_hold_to_brightening:
  assumes "shouldBlink p" and "direction p = down" and "brightness p = 0"
  shows "(direction (fst (snd (GetColor p w))) = up \<longleftrightarrow>
            ucast (zeroBrightnessDelayInMilliseconds p)
              < millisecondsSinceZeroBrightness p (millis_at w (millis_calls w)))
       \<and> (ucast (zeroBrightnessDelayInMilliseconds p)
              < millisecondsSinceZeroBrightness p (millis_at w (millis_calls w)) \<longrightarrow>
            fst (snd (GetColor p w)) =
              p\<lparr>direction := up,
                hue := int (random_at w (random_calls w)) mod 6,
                blinkSpeedFactor := word_of_int (int (random_at w (random_calls w + 1)) mod 4),
                zeroBrightnessDelayInMilliseconds :=
                  word_of_int (int (random_at w (random_calls w + 2)) mod 5000 + 500),
                fullBrightnessDelayInMilliseconds :=
                  word_of_int (int (random_at w (random_calls w + 3)) mod 15000 + 500),
                setTime := millis_at w (millis_calls w + 5)\<rparr>)
       \<and> (\<not> ucast (zeroBrightnessDelayInMilliseconds p)
              < millisecondsSinceZeroBrightness p (millis_at w (millis_calls w)) \<longrightarrow>
            fst (snd (GetColor p w)) = p)"
  using assms by (simp add: GetColor_state zero_hold_step)

text \<open>
  The dark pixel, 796 ms after it reached zero (the clock has wrapped around in between):
  it turns, and becomes a yellow pixel with speed factor 2 and delays 517 and 524.
\<close>

theorem zero_hold_to_brightening_witness:
  "shouldBlink dark_pixel \<and> direction dark_pixel = down \<and> brightness dark_pixel = 0
   \<and> fst (snd (GetColor dark_pixel (ticking_world 500))) =
       dark_pixel\<lparr>direction := up, hue := yellow, blinkSpeedFactor := 2,
         zeroBrightnessDelayInMilliseconds := 517, fullBrightnessDelayInMilliseconds := 524,
         setTime := 505\<rparr>"
  using zero_hold_to_brightening [of dark_pixel "ticking_world 500"]
  by (simp add: dark_pixel_def ticking_world_def millisecondsSinceZeroBrightness_def yellow_def)

text \<open>
  Claim C5. The turn from zero brightness to brightening re-rolls four parameters, each
  from its own \<^verbatim>\<open>random()\<close> call made after a \<^verbatim>\<open>randomSeed()\<close> with the clock value
  just read, in this order: the hue becomes the first value drawn modulo 6, the speed factor
  the second modulo 4, the zero delay the third modulo 5000 plus 500, and the full delay
  the fourth modulo 15000 plus 500. These are the only calls made to the generator.
  \<^verbatim>\<open>RandomizeBlinkability\<close> is not called: the flag that says whether the pixel blinks
  keeps its value, and no fifth value is drawn.
\<close>

theorem redraw_on_brightening:
  assumes "shouldBlink p" and "direction p = down" and "brightness p = 0"
    and "ucast (zeroBrightnessDelayInMilliseconds p)
           < millisecondsSinceZeroBrightness p (millis_at w (millis_calls w))"
  shows "draws_between w (snd (snd (GetColor p w))) = [6, 4, 5000, 15000]
       \<and> random_calls (snd (snd (GetColor p w))) = random_calls w + 4
       \<and> rng_log (snd (snd (GetColor p w))) =
           rng_log w @
             [RandomSeed (millis_at w (millis_calls w + 1)), Random 6,
              RandomSeed (millis_at w (millis_calls w + 2)), Random 4,
              RandomSeed (millis_at w (millis_calls w + 3)), Random 5000,
              RandomSeed (millis_at w (millis_calls w + 4)), Random 15000]
       \<and> hue (fst (snd (GetColor p w))) = int (random_at w (random_calls w)) mod 6
       \<and> blinkSpeedFactor (fst (snd (GetColor p w)))
           = word_of_int (int (random_at w (random_calls w + 1)) mod 4)
       \<and> zeroBrightnessDelayInMilliseconds (fst (snd (GetColor p w)))
           = word_of_int (int (random_at w (random_calls w + 2)) mod 5000 + 500)
       \<and> fullBrightnessDelayInMilliseconds (fst (snd (GetColor p w)))
           = word_of_int (int (random_at w (random_calls w + 3)) mod 15000 + 500)
       \<and> shouldBlink (fst (snd (GetColor p w))) = shouldBlink p"
  using assms by (simp add: GetColor_state zero_hold_step draws_between_def)

text \<open>
  The dark pixel, 796 ms after it reached zero: the values drawn are 3, 10, 17 and 24, so
  the hue becomes yellow (3), the speed factor 2 and the delays 517 and 524 ms; the pixel
  still blinks.
\<close>

theorem redraw_on_brightening_witness:
  "shouldBlink dark_pixel \<and> direction dark_pixel = down \<and> brightness dark_pixel = 0
   \<and> ucast (zeroBrightnessDelayInMilliseconds dark_pixel)
       < millisecondsSinceZeroBrightness dark_pixel
           (millis_at (ticking_world 500) (millis_calls (ticking_world 500)))
   \<and> draws_between (ticking_world 500) (snd (snd (GetColor dark_pixel (ticking_world 500))))
       = [6, 4, 5000, 15000]
   \<and> random_calls (snd (snd (GetColor dark_pixel (ticking_world 500)))) = 4
   \<and> rng_log (snd (snd (GetColor dark_pixel (ticking_world 500))))
       = [RandomSeed 501, Random 6, RandomSeed 502, Random 4,
          RandomSeed 503, Random 5000, RandomSeed 504, Random 15000]
   \<and> hue (fst (snd (GetColor dark_pixel (ticking_world 500)))) = yellow
   \<and> blinkSpeedFactor (fst (snd (GetColor dark_pixel (ticking_world 500)))) = 2
   \<and> zeroBrightnessDelayInMilliseconds (fst (snd (GetColor dark_pixel (ticking_world 500))))
       = 517
   \<and> fullBrightnessDelayInMilliseconds (fst (snd (GetColor dark_pixel (ticking_world 500))))
       = 524
   \<and> shouldBlink (fst (snd (GetColor dark_pixel (ticking_world 500))))"
  using redraw_on_brightening [of dark_pixel "ticking_world 500"]
  by (simp add: dark_pixel_def ticking_world_def millisecondsSinceZeroBrightness_def yellow_def)

text \<open>
  That all five parameters are drawn anew fails on the dark pixel: it turns to
  brightening, the values drawn are not five, and none of them is drawn with the bound
  \<open>BLINK_PROBABILITY\<close> of \<^verbatim>\<open>RandomizeBlinkability\<close>.
\<close>

theorem blinkability_redrawn_counterexample:
  "direction dark_pixel = down
   \<and> direction (fst (snd (GetColor dark_pixel (ticking_world 500)))) = up
   \<and> length (draws_between (ticking_world 500)
                (snd (snd (GetColor dark_pixel (ticking_world 500))))) \<noteq> 5
   \<and> BLINK_PROBABILITY \<notin> set (draws_between (ticking_world 500)
                (snd (snd (GetColor dark_pixel (ticking_world 500)))))"
  by (simp add: GetColor_state zero_hold_step draws_between_def BLINK_PROBABILITY_def
      dark_pixel_def ticking_world_def millisecondsSinceZeroBrightness_def)

section \<open>The hold at full brightness and the turn to dimming\<close>

text \<open>
  Claim C4. A blinking pixel that is brightening and has brightness 255 turns to dimming once
  the time since full brightness was reached exceeds the full delay: the direction becomes
  down, the brightness is set to 255 and the set time becomes the second clock reading of
  the call. Every other field of the pixel keeps its value, and the generator is not
  touched: the world differs only in the two clock readings taken.
\<close>

theorem full_hold_to_dimming:
  assumes "shouldBlink p" and "direction p = up" and "brightness p = 255"
    and "ucast (fullBrightnessDelayInMilliseconds p)
           < millisecondsSinceFullBrightness p (millis_at w (millis_calls w))"
  shows "snd (GetColor p w) =
           (p\<lparr>direction := down, brightness := 255,
              setTime := millis_at w (Suc (millis_calls w))\<rparr>,
            w\<lparr>millis_calls := Suc (Suc (millis_calls w))\<rparr>)"
  using assms
  by (simp add: GetColor_state CalculateBlinkAnimationParameters_def millis_def Let_def)

theorem full_hold_to_dimming_witness:
  "shouldBlink holding_pixel \<and> direction holding_pixel = up \<and> brightness holding_pixel = 255
   \<and> ucast (fullBrightnessDelayInMilliseconds holding_pixel)
       < millisecondsSinceFullBrightness holding_pixel
           (millis_at (ticking_world 300) (millis_calls (ticking_world 300)))
   \<and> snd (GetColor holding_pixel (ticking_world 300)) =
       (holding_pixel\<lparr>direction := down, brightness := 255, setTime := 301\<rparr>,
        (ticking_world 300)\<lparr>millis_calls := 2\<rparr>)"
  using full_hold_to_dimming [of holding_pixel "ticking_world 300"]
  by (simp add: holding_pixel_def ticking_world_def millisecondsSinceFullBrightness_def)

section \<open>Pixels that do not blink\<close>

text \<open>
  Claim C8. If the blink flag of a pixel is false, any number of \<^verbatim>\<open>GetColor\<close> calls,
  whatever the clock shows, leaves the brightness and every other field of the pixel as it
  was; the clock is not even read.
\<close>

theorem blink_disabled_frame:
  "\<not> shouldBlink p \<Longrightarrow> GetColor_calls n p w = (p, w)"
proof (induction n)
  case 0
  show ?case by simp
next
  case (Suc n)
  from Suc.prems have "snd (GetColor p w) = (p, w)" by (rule GetColor_static)
  with Suc show ?case by (simp add: case_prod_unfold)
qed

theorem blink_disabled_frame_witness:
  "\<not> shouldBlink static_pixel \<and>
   GetColor_calls 3 static_pixel (ticking_world 4294967000)
     = (static_pixel, ticking_world 4294967000)"
  using blink_disabled_frame [of static_pixel 3 "ticking_world 4294967000"]
  by (simp add: static_pixel_def)

section \<open>Elapsed time across a wrap-around of the clock\<close>

text \<open>
  Claim C9. Each of the three elapsed times is the difference, modulo \<open>2 ^ 32\<close>, of the
  current clock value and a stored one. If the stored value was taken at the true time
  \<open>T0\<close> and the current one at the true time \<open>T1\<close>, both counted in milliseconds without
  wrapping, and less than \<open>2 ^ 32\<close> ms lie between them, then the difference is
  \<open>T1 - T0\<close>, however often the clock wrapped before and also when it wrapped in between.
\<close>

theorem elapsed_wraparound:
  assumes "T0 \<le> T1" and "T1 - T0 < 2 ^ 32"
  shows "unat (millisecondsSinceSet (p\<lparr>setTime := of_nat T0\<rparr>) (of_nat T1)) = T1 - T0
       \<and> unat (millisecondsSinceZeroBrightness
                 (p\<lparr>timeZeroBrightnessWasEncountered := of_nat T0\<rparr>) (of_nat T1)) = T1 - T0
       \<and> unat (millisecondsSinceFullBrightness
                 (p\<lparr>timeFullBrightnessWasEncountered := of_nat T0\<rparr>) (of_nat T1)) = T1 - T0"
proof -
  have "(of_nat T1 :: u32) - of_nat T0 = of_nat (T1 - T0)"
    using assms(1) by simp
  moreover have "unat (of_nat (T1 - T0) :: u32) = T1 - T0"
    using assms(2) by (simp add: unat_of_nat take_bit_nat_eq_self)
  ultimately show ?thesis
    by (simp add: millisecondsSinceSet_def millisecondsSinceZeroBrightness_def
        millisecondsSinceFullBrightness_def)
qed

text \<open>
  A timestamp taken 6 ms before the clock wraps and a reading 5 ms after: the true time
  4294967301 is the clock value 5, and the elapsed time is 11 ms.
\<close>

theorem elapsed_wraparound_witness:
  "(4294967290::nat) \<le> 4294967301 \<and> (4294967301::nat) - 4294967290 < 2 ^ 32
   \<and> (4294967301::u32) = 5
   \<and> unat (millisecondsSinceSet (dark_pixel\<lparr>setTime := 4294967290\<rparr>) 4294967301) = 11
   \<and> unat (millisecondsSinceZeroBrightness
              (dark_pixel\<lparr>timeZeroBrightnessWasEncountered := 4294967290\<rparr>) 4294967301) = 11
   \<and> unat (millisecondsSinceFullBrightness
              (dark_pixel\<lparr>timeFullBrightnessWasEncountered := 4294967290\<rparr>) 4294967301) = 11"
  using elapsed_wraparound [of 4294967290 4294967301 dark_pixel]
  by simp

section \<open>The colour returned\<close>

lemma channel_fits:
  "uint b * weight \<le> INT_MAX \<Longrightarrow> channel b weight = Inr (word_of_int (weight * uint b div 255))"
  by (simp add: channel_def Let_def mult.commute)

text \<open>
  Up to brightness 128 every product fits \<^verbatim>\<open>int\<close>, and the colour is that of the table.
\<close>

lemma GetColor_matches_table:
  assumes "uint (brightness (fst (CalculateBlinkAnimationParameters p w))) \<le> 128"
  shows "fst (GetColor p w) =
     (case getColorFor (hue (fst (CalculateBlinkAnimationParameters p w)))
             (brightness (fst (CalculateBlinkAnimationParameters p w))) of
        None \<Rightarrow> Inl NoReturnValue
      | Some c \<Rightarrow> Inr c)"
proof -
  define b where "b = brightness (fst (CalculateBlinkAnimationParameters p w))"
  from assms have b: "uint b \<le> 128" "0 \<le> uint b" by (simp_all add: b_def)
  then have fits: "uint b * 255 \<le> INT_MAX" "uint b * 200 \<le> INT_MAX" "uint b * 100 \<le> INT_MAX"
    "uint b * 30 \<le> INT_MAX"
    by (simp_all add: INT_MAX_def)
  show ?thesis
    by (simp add: GetColor_def Let_def case_prod_unfold getColorFor_def weights_def
        channel_fits [OF fits(1)] channel_fits [OF fits(2)] channel_fits [OF fits(3)]
        channel_fits [OF fits(4)] strip_Color_def flip: b_def)
qed

text \<open>
  Claim C6. The colour is meant to be the table's: red at brightness 128 is (128, 0, 0),
  yellow at 255 is (255, 100, 0), purple at 255 is (200, 0, 200) and orange at 255 is
  (255, 30, 0), and \<open>getColorFor\<close> gives these values. \<^verbatim>\<open>GetColor\<close> returns (128, 0, 0)
  for a red pixel at brightness 128. For the purple pixel that holds full brightness it
  computes \<open>255 * 200 = 51000\<close> in \<^verbatim>\<open>int\<close>, which holds at most 32767: the product
  overflows and no colour is defined. The same happens with the weight 255 from brightness
  129 on, so also for yellow and orange at 255.
\<close>

theorem purple_at_full_overflows:
  "getColorFor red 128 = Some (Color 128 0 0)
   \<and> getColorFor yellow 255 = Some (Color 255 100 0)
   \<and> getColorFor purple 255 = Some (Color 200 0 200)
   \<and> getColorFor orange 255 = Some (Color 255 30 0)
   \<and> fst (GetColor (static_pixel\<lparr>hue := red, brightness := 128\<rparr>) (ticking_world 10))
       = Inr (Color 128 0 0)
   \<and> brightness (fst (snd (GetColor holding_pixel (ticking_world 10)))) = 255
   \<and> hue (fst (snd (GetColor holding_pixel (ticking_world 10)))) = purple
   \<and> fst (GetColor holding_pixel (ticking_world 10)) = Inl SignedOverflow
   \<and> fst (GetColor (holding_pixel\<lparr>hue := yellow\<rparr>) (ticking_world 10)) = Inl SignedOverflow
   \<and> fst (GetColor (holding_pixel\<lparr>hue := orange\<rparr>) (ticking_world 10)) = Inl SignedOverflow"
  by (simp add: GetColor_def CalculateBlinkAnimationParameters_def millis_def Let_def
      holding_pixel_def static_pixel_def ticking_world_def millisecondsSinceFullBrightness_def
      hue_defs channel_def INT_MAX_def strip_Color_def getColorFor_def weights_def)

section \<open>The hue is always one of the six cases\<close>

lemma mod_6_cases:
  "(x::int) mod 6 = 0 \<or> x mod 6 = 1 \<or> x mod 6 = 2 \<or> x mod 6 = 3 \<or> x mod 6 = 4 \<or> x mod 6 = 5"
  by presburger

lemma RandomizeColor_valid: "valid_hue (hue (fst (RandomizeColor p w)))"
  using mod_6_cases [of "int (random_at w (random_calls w))"]
  by (simp add: Randomize_simps valid_hue_def hue_defs)

lemma CalculateBlinkAnimationParameters_hue:
  "hue (fst (CalculateBlinkAnimationParameters p w)) = hue p
   \<or> hue (fst (CalculateBlinkAnimationParameters p w)) = int (random_at w (random_calls w)) mod 6"
  by (simp add: CalculateBlinkAnimationParameters_def Randomize_simps millis_def Let_def)

lemma CalculateBlinkAnimationParameters_valid:
  assumes "valid_hue (hue p)"
  shows "valid_hue (hue (fst (CalculateBlinkAnimationParameters p w)))"
  using CalculateBlinkAnimationParameters_hue [of p w] assms
    mod_6_cases [of "int (random_at w (random_calls w))"]
  by (auto simp add: valid_hue_def hue_defs)

lemma channel_returns: "channel b k \<noteq> Inl NoReturnValue"
  by (simp add: channel_def Let_def)

lemma strip_Color_returns:
  "r \<noteq> Inl NoReturnValue \<Longrightarrow> g \<noteq> Inl NoReturnValue \<Longrightarrow> b \<noteq> Inl NoReturnValue
   \<Longrightarrow> strip_Color r g b \<noteq> Inl NoReturnValue"
  by (auto simp add: strip_Color_def split: sum.splits)

lemma GetColor_returns:
  assumes "valid_hue (hue (fst (CalculateBlinkAnimationParameters p w)))"
  shows "fst (GetColor p w) \<noteq> Inl NoReturnValue"
proof -
  define h where "h = hue (fst (CalculateBlinkAnimationParameters p w))"
  from assms consider "h = red" | "h = green" | "h = blue" | "h = yellow" | "h = purple"
    | "h = orange"
    unfolding valid_hue_def h_def by blast
  then show ?thesis
    by cases
      (simp_all add: GetColor_def Let_def case_prod_unfold hue_defs strip_Color_returns
        channel_returns flip: h_def)
qed

text \<open>
  Claim C10. \<^verbatim>\<open>RandomizeColor\<close> leaves a hue that is one of the six enumerators. The
  other four randomizers and \<^verbatim>\<open>GetColor\<close> keep the hue among the six, and for such a
  hue \<^verbatim>\<open>GetColor\<close> takes one of the cases of its \<^verbatim>\<open>switch\<close>: it does not reach its
  end without a \<^verbatim>\<open>return\<close>.
\<close>

theorem hue_always_a_case:
  "valid_hue (hue (fst (RandomizeColor p w)))
   \<and> (valid_hue (hue p) \<longrightarrow>
        valid_hue (hue (fst (RandomizeSpeedFactor p w)))
        \<and> valid_hue (hue (fst (RandomizeBlinkability p w)))
        \<and> valid_hue (hue (fst (RandomizeZeroBrightnessDelay p w)))
        \<and> valid_hue (hue (fst (RandomizeFullBrightnessDelay p w)))
        \<and> valid_hue (hue (fst (snd (GetColor p w))))
        \<and> fst (GetColor p w) \<noteq> Inl NoReturnValue)"
  using RandomizeColor_valid [of p w] CalculateBlinkAnimationParameters_valid [of p w]
    GetColor_returns [of p w]
  by (simp add: Randomize_simps GetColor_state)

theorem hue_always_a_case_witness:
  "valid_hue (hue dark_pixel)
   \<and> valid_hue (hue (fst (RandomizeColor dark_pixel (ticking_world 500))))
   \<and> valid_hue (hue (fst (snd (GetColor dark_pixel (ticking_world 500)))))
   \<and> fst (GetColor dark_pixel (ticking_world 500)) \<noteq> Inl NoReturnValue"
  using hue_always_a_case [of dark_pixel "ticking_world 500"]
  by (simp add: dark_pixel_def valid_hue_def hue_defs)

end
